theory Spec2Isabelle
  imports Complex_Main "HOL-Library.AList"
begin

section \<open>Values and the world outside \<open>spf/config.py\<close>\<close>

text \<open>
  The scalars an option string can denote: the result of the \<open>if\<close>/\<open>elif\<close> chain of
  \<open>_transform_option_dict\<close> is \<open>True\<close>, \<open>False\<close>, \<open>None\<close>, a float, an int or the text
  itself. The type \<open>'f\<close> stands for Python's floats.
\<close>

datatype 'f scalar = PyBool bool | PyNone | PyFloat 'f | PyInt int | PyStr string

text \<open>
  One call of \<open>spf.register_plugin(p, *args, **kwargs)\<close>: the object, the positional
  arguments and the keyword arguments. A \<open>dict\<close> keeps its keys in insertion order and an
  assignment to an existing key replaces the value in place, which is \<open>AList.update\<close> on
  an association list.
\<close>

type_synonym ('o, 'f) call = "'o \<times> 'f scalar list \<times> (string \<times> 'f scalar) list"

text \<open>The registration record returned by the host; the loader reads \<open>reg.plugin_name\<close> only.\<close>

record registration =
  plugin_name :: string

type_synonym 'o assoc = "'o \<times> registration"

text \<open>
  What the code can raise: its own \<open>RuntimeError\<close> (with its message), the \<open>TypeError\<close>
  of a call that binds one parameter twice, and whatever the host's \<open>register_plugin\<close>
  raises (\<open>'x\<close>), which propagates unchanged.
\<close>

datatype 'x error = RuntimeError string | TypeError | Raised 'x

text \<open>
  An entry point of \<open>pkg_resources\<close>: its \<open>name\<close>, \<open>module_name\<close> and \<open>attrs\<close>
  (\<open>module_name\<close> is a keyword of Isabelle, hence the prefix).
\<close>

record entrypoint =
  ep_name :: string
  ep_module_name :: string
  ep_attrs :: "string list"

text \<open>
  The dictionary \<open>p_dict\<close> of \<open>_find_advertised_plugins\<close>, with its keys \<open>'name'\<close>,
  \<open>'module'\<close> and the optional \<open>'instance'\<close> (\<open>None\<close> here when the key is absent).
\<close>

record 'o plugin_def =
  p_name :: string
  p_module :: 'o
  p_instance :: "'o option"

text \<open>
  Everything the file calls and does not define. \<open>py_float\<close> and \<open>py_int\<close> are the
  built-ins \<open>float\<close> and \<open>int\<close> on a \<open>str\<close> (\<open>None\<close> is \<open>ValueError\<close>), \<open>casefold\<close> is
  \<open>str.casefold\<close>, \<open>truthy\<close> is the truth value of an object (\<open>if inst:\<close>),
  \<open>import_module\<close> is \<open>importlib.import_module\<close> (\<open>None\<close> is \<open>ImportError\<close>), \<open>getattr\<close>
  is the built-in (\<open>None\<close> is \<open>AttributeError\<close>), \<open>iter_entry_points\<close> is what
  \<open>pkg_resources.iter_entry_points('sanic_plugins')\<close> yields, in order, and
  \<open>host_register\<close> is the host's \<open>register_plugin\<close>: given the calls made so far and the
  present call it returns the association or raises. The exceptions that the file
  catches are the ones modelled: an import that raises something other than
  \<open>ImportError\<close>, or an attribute access that raises something other than
  \<open>AttributeError\<close>, is not an input of this model.
\<close>

record ('o, 'f, 'x) runtime =
  py_float :: "string \<Rightarrow> 'f option"
  py_int :: "string \<Rightarrow> int option"
  casefold :: "string \<Rightarrow> string"
  truthy :: "'o \<Rightarrow> bool"
  import_module :: "string \<Rightarrow> 'o option"
  getattr :: "'o \<Rightarrow> string \<Rightarrow> 'o option"
  iter_entry_points :: "entrypoint list"
  host_register :: "('o, 'f) call list \<Rightarrow> ('o, 'f) call \<Rightarrow> 'x + 'o assoc"

text \<open>
  The \<open>spf\<close> object as far as the loader touches it: the messages given to \<open>spf.error\<close>
  and \<open>spf.info\<close> and the calls of \<open>spf.register_plugin\<close>, each in order.
\<close>

record ('o, 'f) spf =
  errors :: "string list"
  infos :: "string list"
  calls :: "('o, 'f) call list"

definition spf_error :: "('o, 'f) spf \<Rightarrow> string \<Rightarrow> ('o, 'f) spf" where
  "spf_error spf msg = spf\<lparr>errors := errors spf @ [msg]\<rparr>"

definition spf_info :: "('o, 'f) spf \<Rightarrow> string \<Rightarrow> ('o, 'f) spf" where
  "spf_info spf msg = spf\<lparr>infos := infos spf @ [msg]\<rparr>"

definition register_plugin ::
  "('o, 'f, 'x) runtime \<Rightarrow> ('o, 'f) spf \<Rightarrow> 'o \<Rightarrow> 'f scalar list \<Rightarrow> (string \<times> 'f scalar) list
     \<Rightarrow> ('x error + 'o assoc) \<times> ('o, 'f) spf" where
  "register_plugin rt spf p args kwargs =
     (let call = (p, args, kwargs) in
      (case host_register rt (calls spf) call of
         Inl x \<Rightarrow> Inl (Raised x)
       | Inr assoc \<Rightarrow> Inr assoc,
       spf\<lparr>calls := calls spf @ [call]\<rparr>))"

section \<open>Strings\<close>

text \<open>
  \<open>s.split(sep)\<close> for a separator of one character: every occurrence splits, so the
  result has one part more than \<open>s\<close> has separators. The parts of the rest are never the
  empty list (\<open>str_split_nonempty\<close> below), so the first branch of the \<open>case\<close> is
  never taken.
\<close>

fun str_split :: "char \<Rightarrow> string \<Rightarrow> string list" where
  "str_split sep [] = [[]]"
| "str_split sep (c # cs) =
     (case str_split sep cs of
        [] \<Rightarrow> []
      | p # ps \<Rightarrow> if c = sep then [] # p # ps else (c # p) # ps)"

text \<open>\<open>s.split(sep, 1)\<close>: at most one split, at the first occurrence.\<close>

definition str_split1 :: "char \<Rightarrow> string \<Rightarrow> string list" where
  "str_split1 sep s =
     (if sep \<in> set s
      then [takeWhile (\<lambda>c. c \<noteq> sep) s, tl (dropWhile (\<lambda>c. c \<noteq> sep) s)]
      else [s])"

text \<open>
  A call \<open>f(a, b, c, *args, **kwargs)\<close> of a function \<open>def f(x, y, z, *args, **kwargs)\<close>
  raises \<open>TypeError\<close> (multiple values for an argument) when a key of \<open>kwargs\<close> is one of
  the names \<open>x\<close>, \<open>y\<close>, \<open>z\<close>.
\<close>

definition binds_twice :: "string list \<Rightarrow> (string \<times> 'v) list \<Rightarrow> bool" where
  "binds_twice params kwargs = (filter (\<lambda>k. k \<in> set params) (map fst kwargs) \<noteq> [])"

section \<open>\<open>_transform_option_dict\<close>\<close>

text \<open>Lines 54 to 60: the key (\<open>None\<close> without \<open>=\<close>) and the value text of one part.\<close>

definition split_part :: "string \<Rightarrow> string option \<times> string" where
  "split_part part =
     (if CHR ''='' \<in> set part
      then (let kwparts = str_split1 CHR ''='' part in (Some (kwparts ! 0), kwparts ! 1))
      else (None, part))"

text \<open>Lines 62 to 79: the chain that turns the value text into a scalar.\<close>

definition coerce_val :: "('o, 'f, 'x) runtime \<Rightarrow> string \<Rightarrow> 'f scalar" where
  "coerce_val rt val =
     (if val = ''True'' then PyBool True
      else if val = ''False'' then PyBool False
      else if val = ''None'' then PyNone
      else if CHR ''.'' \<in> set val then
        (case py_float rt val of Some f \<Rightarrow> PyFloat f | None \<Rightarrow> PyStr val)
      else
        (case py_int rt val of Some i \<Rightarrow> PyInt i | None \<Rightarrow> PyStr val))"

text \<open>
  Lines 80 to 83: \<open>if kwkey:\<close> holds for a key that is neither \<open>None\<close> nor the empty
  string.
\<close>

definition store ::
  "string option \<Rightarrow> 'f scalar \<Rightarrow> 'f scalar list \<times> (string \<times> 'f scalar) list
     \<Rightarrow> 'f scalar list \<times> (string \<times> 'f scalar) list" where
  "store kwkey val acc =
     (case acc of (args, kwargs) \<Rightarrow>
        (case kwkey of
           None \<Rightarrow> (args @ [val], kwargs)
         | Some k \<Rightarrow>
             if k \<noteq> [] then (args, AList.update k val kwargs)
             else (args @ [val], kwargs)))"

text \<open>The body of the loop over the parts, and the function.\<close>

definition transform_part ::
  "('o, 'f, 'x) runtime \<Rightarrow> string \<Rightarrow> 'f scalar list \<times> (string \<times> 'f scalar) list
     \<Rightarrow> 'f scalar list \<times> (string \<times> 'f scalar) list" where
  "transform_part rt part acc =
     (case split_part part of (kwkey, val) \<Rightarrow> store kwkey (coerce_val rt val) acc)"

definition transform_option_dict ::
  "('o, 'f, 'x) runtime \<Rightarrow> string \<Rightarrow> 'f scalar list \<times> (string \<times> 'f scalar) list" where
  "transform_option_dict rt options =
     (let parts = str_split CHR '','' options
      in fold (transform_part rt) parts ([], []))"

section \<open>\<open>_find_advertised_plugins\<close>\<close>

text \<open>Lines 44 and 45: the two assignments into \<open>plugins\<close>.\<close>

definition add_plugin ::
  "('o, 'f, 'x) runtime \<Rightarrow> string \<Rightarrow> 'o plugin_def \<Rightarrow> (string \<times> 'o plugin_def) list
     \<Rightarrow> (string \<times> 'o plugin_def) list" where
  "add_plugin rt nm p_dict plugins =
     AList.update (casefold rt nm) p_dict (AList.update nm p_dict plugins)"

text \<open>
  The body of the loop over the entry points. \<open>if attr:\<close> holds for an attribute name
  that is neither \<open>None\<close> nor the empty string; each \<open>continue\<close> leaves \<open>plugins\<close> as it is.
\<close>

definition discover_entry ::
  "('o, 'f, 'x) runtime \<Rightarrow> entrypoint
     \<Rightarrow> (string \<times> 'o plugin_def) list \<times> ('o, 'f) spf
     \<Rightarrow> (string \<times> 'o plugin_def) list \<times> ('o, 'f) spf" where
  "discover_entry rt entrypoint acc =
     (case acc of (plugins, spf) \<Rightarrow>
        let attr = (case ep_attrs entrypoint of [] \<Rightarrow> None | a # _ \<Rightarrow> Some a);
            nm = ep_name entrypoint
        in (case import_module rt (ep_module_name entrypoint) of
              None \<Rightarrow> (plugins, spf_error spf (''Cannot import '' @ ep_module_name entrypoint))
            | Some modul \<Rightarrow>
                let p_dict = \<lparr>p_name = nm, p_module = modul, p_instance = None\<rparr>
                in (case attr of
                      None \<Rightarrow> (add_plugin rt nm p_dict plugins, spf)
                    | Some a \<Rightarrow>
                        if a \<noteq> [] then
                          (case getattr rt modul a of
                             None \<Rightarrow>
                               (plugins,
                                spf_error spf
                                  (''Cannot import '' @ a @ '' from '' @ ep_module_name entrypoint))
                           | Some inst \<Rightarrow>
                               (add_plugin rt nm (p_dict\<lparr>p_instance := Some inst\<rparr>) plugins,
                                spf))
                        else (add_plugin rt nm p_dict plugins, spf))))"

definition find_advertised_plugins ::
  "('o, 'f, 'x) runtime \<Rightarrow> ('o, 'f) spf \<Rightarrow> (string \<times> 'o plugin_def) list \<times> ('o, 'f) spf" where
  "find_advertised_plugins rt spf = fold (discover_entry rt) (iter_entry_points rt) ([], spf)"

section \<open>Registration\<close>

text \<open>
  \<open>_register_advertised_plugin(spf, app, plugin_def, *args, **kwargs)\<close>. The unused
  \<open>app\<close> is left out; its name still takes part in the binding of the call.
\<close>

definition register_advertised_plugin ::
  "('o, 'f, 'x) runtime \<Rightarrow> ('o, 'f) spf \<Rightarrow> 'o plugin_def \<Rightarrow> 'f scalar list
     \<Rightarrow> (string \<times> 'f scalar) list \<Rightarrow> ('x error + 'o assoc) \<times> ('o, 'f) spf" where
  "register_advertised_plugin rt spf plugin_def args kwargs =
     (if binds_twice [''spf'', ''app'', ''plugin_def''] kwargs then (Inl TypeError, spf)
      else
        let nm = p_name plugin_def;
            spf1 = spf_info spf (''Found advertised plugin '' @ nm @ ''.'');
            inst = p_instance plugin_def;
            p = (case inst of
                   None \<Rightarrow> p_module plugin_def
                 | Some i \<Rightarrow> if truthy rt i then i else p_module plugin_def)
        in register_plugin rt spf1 p args kwargs)"

text \<open>\<open>_try_register_other_plugin(spf, app, plugin_name, *args, **kwargs)\<close>.\<close>

definition try_register_other_plugin ::
  "('o, 'f, 'x) runtime \<Rightarrow> ('o, 'f) spf \<Rightarrow> string \<Rightarrow> 'f scalar list
     \<Rightarrow> (string \<times> 'f scalar) list \<Rightarrow> ('x error + 'o assoc) \<times> ('o, 'f) spf" where
  "try_register_other_plugin rt spf plugin args kwargs =
     (if binds_twice [''spf'', ''app'', ''plugin_name''] kwargs then (Inl TypeError, spf)
      else
        (case import_module rt plugin of
           None \<Rightarrow> (Inl (RuntimeError (''Do not know how to register plugin: '' @ plugin)), spf)
         | Some modul \<Rightarrow> register_plugin rt spf modul args kwargs))"

text \<open>
  Lines 113 to 117: \<open>if options:\<close> holds for an option text that is neither \<open>None\<close> (a
  bare key of the file) nor empty.
\<close>

definition entry_options ::
  "('o, 'f, 'x) runtime \<Rightarrow> string option \<Rightarrow> 'f scalar list \<times> (string \<times> 'f scalar) list" where
  "entry_options rt options =
     (case options of
        None \<Rightarrow> ([], [])
      | Some s \<Rightarrow> if s \<noteq> [] then transform_option_dict rt s else ([], []))"

text \<open>Lines 118 to 122: the plugin is looked up by its case-folded reference.\<close>

definition resolve_and_register ::
  "('o, 'f, 'x) runtime \<Rightarrow> (string \<times> 'o plugin_def) list \<Rightarrow> ('o, 'f) spf \<Rightarrow> string
     \<Rightarrow> 'f scalar list \<Rightarrow> (string \<times> 'f scalar) list
     \<Rightarrow> ('x error + 'o assoc) \<times> ('o, 'f) spf" where
  "resolve_and_register rt advertised_plugins spf plugin args kwargs =
     (let p_fold = casefold rt plugin
      in (case map_of advertised_plugins p_fold of
            Some plugin_def \<Rightarrow> register_advertised_plugin rt spf plugin_def args kwargs
          | None \<Rightarrow> try_register_other_plugin rt spf plugin args kwargs))"

text \<open>The body of the loop of \<open>_register_plugins\<close> over the configuration entries.\<close>

definition register_entry ::
  "('o, 'f, 'x) runtime \<Rightarrow> (string \<times> 'o plugin_def) list \<Rightarrow> string \<times> string option
     \<Rightarrow> (string \<times> 'o assoc) list \<Rightarrow> ('o, 'f) spf
     \<Rightarrow> ('x error + (string \<times> 'o assoc) list) \<times> ('o, 'f) spf" where
  "register_entry rt advertised_plugins entry registered_plugins spf =
     (case entry of (plugin, options) \<Rightarrow>
        let spf1 = spf_info spf (''Loading plugin: '' @ plugin @ ''...'')
        in (case entry_options rt options of (args, kwargs) \<Rightarrow>
              (case resolve_and_register rt advertised_plugins spf1 plugin args kwargs of
                 (Inl e, spf2) \<Rightarrow> (Inl e, spf2)
               | (Inr assoc, spf2) \<Rightarrow>
                   (case assoc of (_, reg) \<Rightarrow>
                      (Inr (AList.update (plugin_name reg) assoc registered_plugins), spf2)))))"

text \<open>The loop: an exception leaves it at once, with the \<open>spf\<close> object as it is then.\<close>

fun register_loop ::
  "('o, 'f, 'x) runtime \<Rightarrow> (string \<times> 'o plugin_def) list \<Rightarrow> (string \<times> string option) list
     \<Rightarrow> (string \<times> 'o assoc) list \<Rightarrow> ('o, 'f) spf
     \<Rightarrow> ('x error + (string \<times> 'o assoc) list) \<times> ('o, 'f) spf" where
  "register_loop rt advertised_plugins [] registered_plugins spf = (Inr registered_plugins, spf)"
| "register_loop rt advertised_plugins (entry # rest) registered_plugins spf =
     (case register_entry rt advertised_plugins entry registered_plugins spf of
        (Inl e, spf1) \<Rightarrow> (Inl e, spf1)
      | (Inr registered1, spf1) \<Rightarrow> register_loop rt advertised_plugins rest registered1 spf1)"

definition register_plugins ::
  "('o, 'f, 'x) runtime \<Rightarrow> ('o, 'f) spf \<Rightarrow> (string \<times> string option) list
     \<Rightarrow> ('x error + (string \<times> 'o assoc) list) \<times> ('o, 'f) spf" where
  "register_plugins rt spf config_plugins =
     (case find_advertised_plugins rt spf of (advertised_plugins, spf1) \<Rightarrow>
        register_loop rt advertised_plugins config_plugins [] spf1)"

section \<open>The coercion order in the words of the specification\<close>

text \<open>
  The specification describes the coercion as an ordered list of rules of which the first
  that matches wins: the three exact literals; a text with a \<open>.\<close>, tried as a float and
  kept as text on failure; any other text, tried as an integer and kept as text on
  failure. \<open>spec_coerce\<close> follows these words; \<open>coerce_val\<close> above follows the code.
\<close>

type_synonym 'f rule = "string \<Rightarrow> 'f scalar option"

definition literal_rule :: "'f rule" where
  "literal_rule v =
     (if v = ''True'' then Some (PyBool True)
      else if v = ''False'' then Some (PyBool False)
      else if v = ''None'' then Some PyNone
      else None)"

definition float_rule :: "('o, 'f, 'x) runtime \<Rightarrow> 'f rule" where
  "float_rule rt v =
     (if CHR ''.'' \<in> set v
      then Some (case py_float rt v of Some f \<Rightarrow> PyFloat f | None \<Rightarrow> PyStr v)
      else None)"

definition integer_rule :: "('o, 'f, 'x) runtime \<Rightarrow> 'f rule" where
  "integer_rule rt v = Some (case py_int rt v of Some i \<Rightarrow> PyInt i | None \<Rightarrow> PyStr v)"

fun first_match :: "'f rule list \<Rightarrow> string \<Rightarrow> 'f scalar option" where
  "first_match [] v = None"
| "first_match (r # rs) v = (case r v of Some s \<Rightarrow> Some s | None \<Rightarrow> first_match rs v)"

definition spec_coerce :: "('o, 'f, 'x) runtime \<Rightarrow> string \<Rightarrow> 'f scalar" where
  "spec_coerce rt v =
     (case first_match [literal_rule, float_rule rt, integer_rule rt] v of
        Some s \<Rightarrow> s
      | None \<Rightarrow> PyStr v)"

section \<open>A sample runtime\<close>

text \<open>
  A small concrete world, on which the theorems below are evaluated: modules and their
  members as values, a parser of decimal integers and of decimal fractions in place of
  \<open>int\<close> and \<open>float\<close>, lower-casing of the ASCII letters in place of \<open>casefold\<close>, and a
  host that registers every module or member under its module's name and refuses the
  object \<open>Hollow\<close>, the one object whose truth value is false.
\<close>

datatype sample_obj = Module string | Member string string | Hollow

definition digit_string :: "string \<Rightarrow> bool" where
  "digit_string s = (s \<noteq> [] \<and> list_all (\<lambda>c. c \<in> set ''0123456789'') s)"

definition decimal_value :: "string \<Rightarrow> nat" where
  "decimal_value s = foldl (\<lambda>n c. 10 * n + (of_char c - 48)) 0 s"

definition sample_int :: "string \<Rightarrow> int option" where
  "sample_int s =
     (case s of
        [] \<Rightarrow> None
      | c # ds \<Rightarrow>
          if c = CHR ''-'' then (if digit_string ds then Some (- int (decimal_value ds)) else None)
          else if digit_string s then Some (int (decimal_value s)) else None)"

definition sample_float :: "string \<Rightarrow> real option" where
  "sample_float s =
     (case str_split1 CHR ''.'' s of
        [a, b] \<Rightarrow>
          if digit_string a \<and> digit_string b
          then Some (real (decimal_value (a @ b)) / 10 ^ length b) else None
      | _ \<Rightarrow> None)"

definition ascii_lower :: "char \<Rightarrow> char" where
  "ascii_lower c =
     (case map_of (zip ''ABCDEFGHIJKLMNOPQRSTUVWXYZ'' ''abcdefghijklmnopqrstuvwxyz'') c of
        Some l \<Rightarrow> l | None \<Rightarrow> c)"

definition sample_import :: "string \<Rightarrow> sample_obj option" where
  "sample_import m =
     (if m \<in> set [''plugins.alpha'', ''plugins.beta'', ''adhoc.mod''] then Some (Module m)
      else None)"

definition sample_getattr :: "sample_obj \<Rightarrow> string \<Rightarrow> sample_obj option" where
  "sample_getattr p a =
     (case p of
        Module m \<Rightarrow>
          if a = ''instance'' then Some (Member m a)
          else if a = ''nothing'' then Some Hollow
          else None
      | _ \<Rightarrow> None)"

definition sample_register ::
  "(sample_obj, real) call list \<Rightarrow> (sample_obj, real) call \<Rightarrow> string + sample_obj assoc" where
  "sample_register history call =
     (case call of (p, args, kwargs) \<Rightarrow>
        (case p of
           Module m \<Rightarrow> Inr (p, \<lparr>plugin_name = m\<rparr>)
         | Member m a \<Rightarrow> Inr (p, \<lparr>plugin_name = m\<rparr>)
         | Hollow \<Rightarrow> Inl ''not a plugin''))"

definition sample_runtime :: "(sample_obj, real, string) runtime" where
  "sample_runtime =
     \<lparr>py_float = sample_float, py_int = sample_int, casefold = map ascii_lower,
      truthy = (\<lambda>p. p \<noteq> Hollow), import_module = sample_import, getattr = sample_getattr,
      iter_entry_points =
        [\<lparr>ep_name = ''Alpha'', ep_module_name = ''plugins.alpha'', ep_attrs = [''instance'']\<rparr>,
         \<lparr>ep_name = ''Gamma'', ep_module_name = ''plugins.missing'', ep_attrs = []\<rparr>,
         \<lparr>ep_name = ''Beta'', ep_module_name = ''plugins.beta'', ep_attrs = []\<rparr>,
         \<lparr>ep_name = ''Delta'', ep_module_name = ''plugins.beta'', ep_attrs = [''absent'']\<rparr>],
      host_register = sample_register\<rparr>"

definition empty_spf :: "('o, 'f) spf" where
  "empty_spf = \<lparr>errors = [], infos = [], calls = []\<rparr>"

section \<open>Notions for stating the properties of discovery\<close>

text \<open>
  What the loop body of \<open>_find_advertised_plugins\<close> assigns for an entry point: the
  \<open>p_dict\<close> it has built when it reaches lines 44 and 45, and \<open>None\<close> when one of the two
  \<open>continue\<close> statements skips the entry. An entry is processed successfully when this is
  not \<open>None\<close>.
\<close>

definition descriptor :: "('o, 'f, 'x) runtime \<Rightarrow> entrypoint \<Rightarrow> 'o plugin_def option" where
  "descriptor rt entrypoint =
     (case import_module rt (ep_module_name entrypoint) of
        None \<Rightarrow> None
      | Some modul \<Rightarrow>
          (case ep_attrs entrypoint of
             [] \<Rightarrow> Some \<lparr>p_name = ep_name entrypoint, p_module = modul, p_instance = None\<rparr>
           | a # _ \<Rightarrow>
               if a \<noteq> [] then
                 (case getattr rt modul a of
                    None \<Rightarrow> None
                  | Some inst \<Rightarrow>
                      Some \<lparr>p_name = ep_name entrypoint, p_module = modul,
                            p_instance = Some inst\<rparr>)
               else Some \<lparr>p_name = ep_name entrypoint, p_module = modul, p_instance = None\<rparr>))"

text \<open>The message that \<open>spf.error\<close> receives when the entry is skipped.\<close>

definition skip_message :: "('o, 'f, 'x) runtime \<Rightarrow> entrypoint \<Rightarrow> string" where
  "skip_message rt entrypoint =
     (case import_module rt (ep_module_name entrypoint) of
        None \<Rightarrow> ''Cannot import '' @ ep_module_name entrypoint
      | Some modul \<Rightarrow>
          ''Cannot import '' @ (case ep_attrs entrypoint of [] \<Rightarrow> [] | a # _ \<Rightarrow> a) @ '' from ''
            @ ep_module_name entrypoint)"

text \<open>
  The entries that assign to the key \<open>k\<close>: those processed successfully whose name, or
  whose case-folded name, is \<open>k\<close>.
\<close>

definition writers :: "('o, 'f, 'x) runtime \<Rightarrow> string \<Rightarrow> entrypoint list \<Rightarrow> entrypoint list" where
  "writers rt k eps =
     filter (\<lambda>e. descriptor rt e \<noteq> None \<and> (ep_name e = k \<or> casefold rt (ep_name e) = k)) eps"

text \<open>A runtime with two entry points whose names differ by case only.\<close>

definition clash_runtime :: "(sample_obj, real, string) runtime" where
  "clash_runtime =
     sample_runtime
       \<lparr>iter_entry_points :=
          [\<lparr>ep_name = ''alpha'', ep_module_name = ''plugins.alpha'', ep_attrs = []\<rparr>,
           \<lparr>ep_name = ''Alpha'', ep_module_name = ''plugins.beta'', ep_attrs = []\<rparr>]\<rparr>"

section \<open>Notions for stating the properties of registration\<close>

text \<open>
  The object that lines 118 to 122 hand to \<open>spf.register_plugin\<close> for a plugin
  reference: on a hit of the case-folded reference in the discovery mapping, what
  \<open>_register_advertised_plugin\<close> chooses; on a miss, the module that
  \<open>_try_register_other_plugin\<close> imports, and \<open>None\<close> when that import fails.
\<close>

definition target ::
  "('o, 'f, 'x) runtime \<Rightarrow> (string \<times> 'o plugin_def) list \<Rightarrow> string \<Rightarrow> 'o option" where
  "target rt advertised_plugins plugin =
     (case map_of advertised_plugins (casefold rt plugin) of
        Some plugin_def \<Rightarrow>
          Some (case p_instance plugin_def of
                  None \<Rightarrow> p_module plugin_def
                | Some i \<Rightarrow> if truthy rt i then i else p_module plugin_def)
      | None \<Rightarrow> import_module rt plugin)"

text \<open>The named parameters of the function that the entry's arguments are passed through.\<close>

definition call_params ::
  "('o, 'f, 'x) runtime \<Rightarrow> (string \<times> 'o plugin_def) list \<Rightarrow> string \<Rightarrow> string list" where
  "call_params rt advertised_plugins plugin =
     (case map_of advertised_plugins (casefold rt plugin) of
        Some plugin_def \<Rightarrow> [''spf'', ''app'', ''plugin_def'']
      | None \<Rightarrow> [''spf'', ''app'', ''plugin_name''])"

text \<open>
  The call of the host's \<open>register_plugin\<close> that a configuration entry leads to, and
  \<open>None\<close> when the entry fails before the host is called.
\<close>

definition planned_call ::
  "('o, 'f, 'x) runtime \<Rightarrow> (string \<times> 'o plugin_def) list \<Rightarrow> string \<times> string option
     \<Rightarrow> ('o, 'f) call option" where
  "planned_call rt advertised_plugins entry =
     (case entry of (plugin, options) \<Rightarrow>
        (case entry_options rt options of (args, kwargs) \<Rightarrow>
           if binds_twice (call_params rt advertised_plugins plugin) kwargs then None
           else map_option (\<lambda>p. (p, args, kwargs)) (target rt advertised_plugins plugin)))"

text \<open>The error with which an entry fails before the host is called.\<close>

definition entry_error ::
  "('o, 'f, 'x) runtime \<Rightarrow> (string \<times> 'o plugin_def) list \<Rightarrow> string \<times> string option
     \<Rightarrow> 'x error" where
  "entry_error rt advertised_plugins entry =
     (case entry of (plugin, options) \<Rightarrow>
        if binds_twice (call_params rt advertised_plugins plugin) (snd (entry_options rt options))
        then TypeError
        else RuntimeError (''Do not know how to register plugin: '' @ plugin))"

text \<open>
  What the host answers to a sequence of calls that follows the calls \<open>history\<close>: each
  call is answered knowing all the calls before it.
\<close>

fun replies ::
  "('o, 'f, 'x) runtime \<Rightarrow> ('o, 'f) call list \<Rightarrow> ('o, 'f) call list \<Rightarrow> ('x + 'o assoc) list" where
  "replies rt history [] = []"
| "replies rt history (c # cs) = host_register rt history c # replies rt (history @ [c]) cs"

text \<open>The assignment of line 124, for a sequence of associations.\<close>

definition record_all :: "'o assoc list \<Rightarrow> (string \<times> 'o assoc) list \<Rightarrow> (string \<times> 'o assoc) list" where
  "record_all assocs registered_plugins =
     fold (\<lambda>assoc. AList.update (plugin_name (snd assoc)) assoc) assocs registered_plugins"

text \<open>
  A runtime whose one entry point names an attribute that exists and whose truth value
  is false.
\<close>

definition hollow_runtime :: "(sample_obj, real, string) runtime" where
  "hollow_runtime =
     sample_runtime
       \<lparr>iter_entry_points :=
          [\<lparr>ep_name = ''Empty'', ep_module_name = ''plugins.alpha'', ep_attrs = [''nothing'']\<rparr>]\<rparr>"

section \<open>Facts about the string functions and the sample runtime\<close>

lemma str_split_nonempty: "str_split sep s \<noteq> []"
  by (induction s) (auto split: list.splits)

lemma str_split_no_sep: "sep \<notin> set s \<Longrightarrow> str_split sep s = [s]"
  by (induction s) auto

lemma str_split_sep: "str_split sep (sep # cs) = [] # str_split sep cs"
  using str_split_nonempty [of sep cs] by (simp split: list.splits)

lemma str_split_append:
  "sep \<notin> set p \<Longrightarrow> str_split sep (p @ sep # rest) = p # str_split sep rest"
proof (induction p)
  case Nil
  show ?case by (simp only: append_Nil str_split_sep)
next
  case (Cons a p)
  then show ?case by auto
qed

lemma split_at_first:
  "sep \<in> set s \<Longrightarrow> s = takeWhile (\<lambda>c. c \<noteq> sep) s @ sep # tl (dropWhile (\<lambda>c. c \<noteq> sep) s)"
  by (induction s) auto

lemma take_no_sep: "sep \<notin> set (takeWhile (\<lambda>c. c \<noteq> sep) s)"
  by (induction s) auto

lemma split_part_keyed:
  "CHR ''='' \<in> set part \<Longrightarrow>
     split_part part =
       (Some (takeWhile (\<lambda>c. c \<noteq> CHR ''='') part), tl (dropWhile (\<lambda>c. c \<noteq> CHR ''='') part))"
  by (simp add: split_part_def str_split1_def)

lemma split_part_unkeyed: "CHR ''='' \<notin> set part \<Longrightarrow> split_part part = (None, part)"
  by (simp add: split_part_def)

lemma split_part_empty_key: "split_part (CHR ''='' # v) = (Some [], v)"
  by (simp add: split_part_def str_split1_def)

lemma coerce_val_spec: "coerce_val rt v = spec_coerce rt v"
  by (simp add: coerce_val_def spec_coerce_def literal_rule_def float_rule_def integer_rule_def)

lemma transform_part_spec:
  "transform_part rt part acc =
     store (fst (split_part part)) (spec_coerce rt (snd (split_part part))) acc"
  by (simp add: transform_part_def coerce_val_spec split: prod.splits)

lemma transform_single:
  "CHR '','' \<notin> set s \<Longrightarrow> transform_option_dict rt s = transform_part rt s ([], [])"
  by (simp add: transform_option_dict_def str_split_no_sep)

lemma sample_int_vals:
  "sample_int [] = None" "sample_int ''a'' = None" "sample_int ''1'' = Some 1"
  "sample_int ''foo'' = None" "sample_int ''plain'' = None" "sample_int ''a=b'' = None"
  by (simp_all add: sample_int_def digit_string_def decimal_value_def)

lemma sample_float_val: "sample_float ''2.5'' = Some (5 / 2)"
  by (simp add: sample_float_def str_split1_def digit_string_def decimal_value_def)

lemma sample_runtime_sel:
  "py_int sample_runtime = sample_int" "py_float sample_runtime = sample_float"
  by (simp_all add: sample_runtime_def)

section \<open>The option-string parser\<close>

text \<open>
  C7. A part that contains \<open>=\<close> is split at its first \<open>=\<close> only: the key is the text
  before it, which holds no \<open>=\<close>, and the value text is all that follows, unchanged, so
  any further \<open>=\<close> stays in the value text that is coerced. A part without \<open>=\<close> has no
  key and is the value text as a whole.
\<close>

theorem split_on_first_equals:
  "(CHR ''='' \<in> set part \<longrightarrow>
      (\<exists>k v. part = k @ CHR ''='' # v \<and> CHR ''='' \<notin> set k \<and>
             split_part part = (Some k, v) \<and>
             transform_part rt part acc = store (Some k) (coerce_val rt v) acc)) \<and>
   (CHR ''='' \<notin> set part \<longrightarrow>
      split_part part = (None, part) \<and>
      transform_part rt part acc = store None (coerce_val rt part) acc)"
proof (intro conjI impI)
  assume h: "CHR ''='' \<in> set part"
  let ?k = "takeWhile (\<lambda>c. c \<noteq> CHR ''='') part"
  let ?v = "tl (dropWhile (\<lambda>c. c \<noteq> CHR ''='') part)"
  have 1: "part = ?k @ CHR ''='' # ?v" using h by (rule split_at_first)
  have 2: "CHR ''='' \<notin> set ?k" by (rule take_no_sep)
  have 3: "split_part part = (Some ?k, ?v)" using h by (rule split_part_keyed)
  have 4: "transform_part rt part acc = store (Some ?k) (coerce_val rt ?v) acc"
    by (simp only: transform_part_def 3 prod.case)
  show "\<exists>k v. part = k @ CHR ''='' # v \<and> CHR ''='' \<notin> set k \<and>
             split_part part = (Some k, v) \<and>
             transform_part rt part acc = store (Some k) (coerce_val rt v) acc"
    using 1 2 3 4 by (intro exI conjI)
next
  assume h: "CHR ''='' \<notin> set part"
  then show "split_part part = (None, part)" by (rule split_part_unkeyed)
  then show "transform_part rt part acc = store None (coerce_val rt part) acc"
    by (simp only: transform_part_def prod.case)
qed

theorem split_on_first_equals_witness:
  "CHR ''='' \<in> set ''url=a=b'' \<and> split_part ''url=a=b'' = (Some ''url'', ''a=b'') \<and>
   transform_part sample_runtime ''url=a=b'' ([], []) = ([], [(''url'', PyStr ''a=b'')]) \<and>
   CHR ''='' \<notin> set ''plain'' \<and> split_part ''plain'' = (None, ''plain'') \<and>
   transform_part sample_runtime ''plain'' ([], []) = ([PyStr ''plain''], [])"
  using split_on_first_equals [of "''url=a=b''" sample_runtime "([], [])"]
    split_on_first_equals [of "''plain''" sample_runtime "([], [])"]
  by (simp add: split_part_def str_split1_def coerce_val_def store_def
      sample_runtime_sel sample_int_vals)

text \<open>
  C10. A part that begins with \<open>=\<close>, so that the text before its first \<open>=\<close> is empty, is
  stored like a part without a key: the loop body appends the coerced value to the
  positional arguments and leaves the keyword arguments as they are, whatever both held
  before. For an option string that is such a part alone the result is the one
  positional value.
\<close>

theorem empty_key_is_positional:
  "transform_part rt (CHR ''='' # v) (args, kwargs) = (args @ [coerce_val rt v], kwargs) \<and>
   (CHR '','' \<notin> set v \<longrightarrow> transform_option_dict rt (CHR ''='' # v) = ([coerce_val rt v], []))"
  by (simp add: transform_single transform_part_def split_part_empty_key store_def)

theorem empty_key_is_positional_witness:
  "CHR '','' \<notin> set ''foo'' \<and> transform_option_dict sample_runtime ''=foo'' = ([PyStr ''foo''], [])"
  using empty_key_is_positional [of sample_runtime "''foo''" "[]" "[]"]
  by (simp add: coerce_val_def sample_runtime_sel sample_int_vals)

text \<open>
  C4, as the claim states it: the parse of the empty string would be the empty positional
  sequence and the empty named mapping. It is not: splitting the empty string at the
  commas gives the list of one empty part, and that part is stored as a positional value.
\<close>

theorem empty_string_parse_counterexample:
  "transform_option_dict sample_runtime [] \<noteq> ([], [])"
  by (simp add: transform_option_dict_def transform_part_def split_part_def store_def)

text \<open>
  C4, amended. The parse of the empty string has one positional value, the empty string
  itself (\<open>int\<close> of the empty string raises \<open>ValueError\<close>), and no named value; in no
  runtime is its positional sequence empty. The empty result is the work of the caller:
  for an option text that is empty or absent \<open>_register_plugins\<close> does not call the
  parser and takes the empty tuple and the empty dictionary.
\<close>

theorem empty_string_parse:
  "(py_int rt [] = None \<longrightarrow> transform_option_dict rt [] = ([PyStr []], [])) \<and>
   fst (transform_option_dict rt []) \<noteq> [] \<and>
   entry_options rt (Some []) = ([], []) \<and>
   entry_options rt None = ([], [])"
  by (simp add: transform_option_dict_def transform_part_def split_part_def coerce_val_def
      store_def entry_options_def split: option.splits)

theorem empty_string_parse_witness:
  "py_int sample_runtime [] = None \<and> transform_option_dict sample_runtime [] = ([PyStr []], [])"
  using empty_string_parse [of sample_runtime]
  by (simp add: sample_runtime_sel sample_int_vals)

lemma example_parts:
  "str_split CHR '','' ''a,b=1,c=True,d=2.5,e=None'' =
     [''a'', ''b=1'', ''c=True'', ''d=2.5'', ''e=None'']"
  by simp

lemma example_split:
  "split_part ''a'' = (None, ''a'')" "split_part ''b=1'' = (Some ''b'', ''1'')"
  "split_part ''c=True'' = (Some ''c'', ''True'')" "split_part ''d=2.5'' = (Some ''d'', ''2.5'')"
  "split_part ''e=None'' = (Some ''e'', ''None'')"
  by (simp_all add: split_part_def str_split1_def)

lemma example_parse:
  assumes "py_int rt ''a'' = None" "py_int rt ''1'' = Some 1" "py_float rt ''2.5'' = Some x"
  shows "transform_option_dict rt ''a,b=1,c=True,d=2.5,e=None'' =
           ([PyStr ''a''],
            [(''b'', PyInt 1), (''c'', PyBool True), (''d'', PyFloat x), (''e'', PyNone)])"
proof -
  have c: "coerce_val rt ''a'' = PyStr ''a''" "coerce_val rt ''1'' = PyInt 1"
    "coerce_val rt ''True'' = PyBool True" "coerce_val rt ''2.5'' = PyFloat x"
    "coerce_val rt ''None'' = PyNone"
    using assms by (simp_all add: coerce_val_def)
  show ?thesis
    unfolding transform_option_dict_def Let_def example_parts
    by (simp add: transform_part_def example_split c store_def)
qed

text \<open>
  C1. The value text of a part is coerced by the first rule that matches, in the order of
  the specification: \<open>coerce_val\<close>, taken from the code, is \<open>spec_coerce\<close>, written after
  the specification (the three literals, then a float for a text with a \<open>.\<close>, then an
  integer, each of the two parses keeping the text when it fails), and the parser stores,
  part by part, the value that \<open>spec_coerce\<close> gives. The literals win over both parses
  whatever these would return. With \<open>int\<close> failing on \<open>a\<close> and giving 1 on \<open>1\<close>, and
  \<open>float\<close> giving \<open>x\<close> on \<open>2.5\<close>, the option string of the specification parses to the
  positional \<open>a\<close> and the named \<open>b\<close> = 1, \<open>c\<close> = true, \<open>d\<close> = \<open>x\<close>, \<open>e\<close> = null.
\<close>

theorem coercion_priority:
  "coerce_val rt v = spec_coerce rt v \<and>
   coerce_val rt ''True'' = PyBool True \<and>
   coerce_val rt ''False'' = PyBool False \<and>
   coerce_val rt ''None'' = PyNone \<and>
   transform_option_dict rt options =
     fold (\<lambda>part. store (fst (split_part part)) (spec_coerce rt (snd (split_part part))))
       (str_split CHR '','' options) ([], []) \<and>
   (py_int rt ''a'' = None \<and> py_int rt ''1'' = Some 1 \<and> py_float rt ''2.5'' = Some x \<longrightarrow>
      transform_option_dict rt ''a,b=1,c=True,d=2.5,e=None'' =
        ([PyStr ''a''],
         [(''b'', PyInt 1), (''c'', PyBool True), (''d'', PyFloat x), (''e'', PyNone)]))"
proof (intro conjI impI)
  show "coerce_val rt v = spec_coerce rt v" by (rule coerce_val_spec)
  show "coerce_val rt ''True'' = PyBool True" by (simp add: coerce_val_def)
  show "coerce_val rt ''False'' = PyBool False" by (simp add: coerce_val_def)
  show "coerce_val rt ''None'' = PyNone" by (simp add: coerce_val_def)
  have "transform_part rt =
      (\<lambda>part. store (fst (split_part part)) (spec_coerce rt (snd (split_part part))))"
    by (intro ext) (rule transform_part_spec)
  then show "transform_option_dict rt options =
     fold (\<lambda>part. store (fst (split_part part)) (spec_coerce rt (snd (split_part part))))
       (str_split CHR '','' options) ([], [])"
    by (simp add: transform_option_dict_def)
next
  assume "py_int rt ''a'' = None \<and> py_int rt ''1'' = Some 1 \<and> py_float rt ''2.5'' = Some x"
  then show "transform_option_dict rt ''a,b=1,c=True,d=2.5,e=None'' =
        ([PyStr ''a''],
         [(''b'', PyInt 1), (''c'', PyBool True), (''d'', PyFloat x), (''e'', PyNone)])"
    by (intro example_parse) simp_all
qed

theorem coercion_priority_witness:
  "py_int sample_runtime ''a'' = None \<and> py_int sample_runtime ''1'' = Some 1 \<and>
   py_float sample_runtime ''2.5'' = Some (5 / 2) \<and>
   transform_option_dict sample_runtime ''a,b=1,c=True,d=2.5,e=None'' =
     ([PyStr ''a''],
      [(''b'', PyInt 1), (''c'', PyBool True), (''d'', PyFloat (5 / 2)), (''e'', PyNone)])"
proof -
  have h: "py_int sample_runtime ''a'' = None \<and> py_int sample_runtime ''1'' = Some 1 \<and>
      py_float sample_runtime ''2.5'' = Some (5 / 2)"
    by (simp add: sample_runtime_sel sample_int_vals sample_float_val)
  from coercion_priority [of sample_runtime "[]" "[]" "5 / 2"] h show ?thesis
    by (elim conjE) (intro conjI, simp_all)
qed

section \<open>Discovery\<close>

lemma discover_entry_cases:
  "discover_entry rt e (plugins, spf) =
     (case descriptor rt e of
        None \<Rightarrow> (plugins, spf_error spf (skip_message rt e))
      | Some d \<Rightarrow> (add_plugin rt (ep_name e) d plugins, spf))"
  by (simp add: discover_entry_def descriptor_def skip_message_def
      split: option.splits list.splits)

lemma map_of_add_plugin:
  "map_of (add_plugin rt n d plugins) k =
     (if k = n \<or> k = casefold rt n then Some d else map_of plugins k)"
  by (simp add: add_plugin_def update_conv')

lemma fold_discover_plugins_indep:
  "fst (fold (discover_entry rt) es (plugins, s)) = fst (fold (discover_entry rt) es (plugins, s'))"
proof (induction es arbitrary: plugins s s')
  case Nil
  show ?case by simp
next
  case (Cons e es)
  show ?case
  proof (cases "descriptor rt e")
    case None
    then show ?thesis by (simp add: discover_entry_cases) (rule Cons.IH)
  next
    case (Some d)
    then show ?thesis by (simp add: discover_entry_cases) (rule Cons.IH)
  qed
qed
lemma writers_Cons:
  "writers rt k (e # es) =
     (if descriptor rt e \<noteq> None \<and> (ep_name e = k \<or> casefold rt (ep_name e) = k)
      then e # writers rt k es else writers rt k es)"
  by (simp add: writers_def)

lemma writers_append: "writers rt k (xs @ ys) = writers rt k xs @ writers rt k ys"
  by (simp add: writers_def)

lemma map_of_fold_discover:
  "map_of (fst (fold (discover_entry rt) es (plugins, s))) k =
     (if writers rt k es = [] then map_of plugins k
      else descriptor rt (last (writers rt k es)))"
proof (induction es arbitrary: plugins s)
  case Nil
  show ?case by (simp add: writers_def)
next
  case (Cons e es)
  show ?case
  proof (cases "descriptor rt e")
    case None
    then show ?thesis
      by (simp add: discover_entry_cases writers_Cons Cons.IH)
  next
    case (Some d)
    then show ?thesis
      by (auto simp add: discover_entry_cases writers_Cons Cons.IH map_of_add_plugin)
  qed
qed

lemma errors_fold_discover:
  "errors (snd (fold (discover_entry rt) es (plugins, s))) =
     errors s @ map (skip_message rt) (filter (\<lambda>e. descriptor rt e = None) es)"
proof (induction es arbitrary: plugins s)
  case Nil
  show ?case by simp
next
  case (Cons e es)
  show ?case
    by (cases "descriptor rt e") (simp_all add: discover_entry_cases Cons.IH spf_error_def)
qed

lemma calls_fold_discover:
  "calls (snd (fold (discover_entry rt) es (plugins, s))) = calls s"
proof (induction es arbitrary: plugins s)
  case Nil
  show ?case by simp
next
  case (Cons e es)
  show ?case
    by (cases "descriptor rt e") (simp_all add: discover_entry_cases Cons.IH spf_error_def)
qed

lemma descriptor_entry_points_irrelevant [simp]:
  "descriptor (rt\<lparr>iter_entry_points := eps\<rparr>) = descriptor rt"
  by (rule ext) (simp add: descriptor_def split: option.splits list.splits)

lemma discover_entry_points_irrelevant [simp]:
  "discover_entry (rt\<lparr>iter_entry_points := eps\<rparr>) = discover_entry rt"
  by (intro ext)
    (simp add: discover_entry_def add_plugin_def Let_def
      split: prod.splits option.splits list.splits)

lemma descriptor_None_iff:
  "descriptor rt e = None \<longleftrightarrow>
     import_module rt (ep_module_name e) = None \<or>
     (\<exists>m a as. import_module rt (ep_module_name e) = Some m \<and> ep_attrs e = a # as \<and>
        a \<noteq> [] \<and> getattr rt m a = None)"
  by (auto simp add: descriptor_def split: option.splits list.splits if_splits)

lemma fold_discover_skip:
  assumes "descriptor rt e = None"
  shows "fst (fold (discover_entry rt) (pre @ e # post) (plugins, s)) =
         fst (fold (discover_entry rt) (pre @ post) (plugins, s))"
proof -
  obtain p1 s1 where a: "fold (discover_entry rt) pre (plugins, s) = (p1, s1)"
    by (cases "fold (discover_entry rt) pre (plugins, s)")
  show ?thesis
    using assms
    by (simp add: a discover_entry_cases)
      (rule fold_discover_plugins_indep)
qed

lemma map_of_find_advertised:
  "map_of (fst (find_advertised_plugins rt spf)) k =
     (if writers rt k (iter_entry_points rt) = [] then None
      else descriptor rt (last (writers rt k (iter_entry_points rt))))"
  by (simp add: find_advertised_plugins_def map_of_fold_discover)
lemma ascii_lower_idem: "ascii_lower (ascii_lower c) = ascii_lower c"
  by (simp add: ascii_lower_def)

lemma sample_casefold_idem: "casefold sample_runtime (casefold sample_runtime t) = casefold sample_runtime t"
  by (simp add: sample_runtime_def ascii_lower_idem)

lemma sample_entry_points:
  "iter_entry_points sample_runtime =
     [\<lparr>ep_name = ''Alpha'', ep_module_name = ''plugins.alpha'', ep_attrs = [''instance'']\<rparr>,
      \<lparr>ep_name = ''Gamma'', ep_module_name = ''plugins.missing'', ep_attrs = []\<rparr>] @
     \<lparr>ep_name = ''Beta'', ep_module_name = ''plugins.beta'', ep_attrs = []\<rparr> #
     [\<lparr>ep_name = ''Delta'', ep_module_name = ''plugins.beta'', ep_attrs = [''absent'']\<rparr>]"
  by (simp add: sample_runtime_def)

lemma sample_descriptors:
  "descriptor sample_runtime
     \<lparr>ep_name = ''Alpha'', ep_module_name = ''plugins.alpha'', ep_attrs = [''instance'']\<rparr> =
   Some \<lparr>p_name = ''Alpha'', p_module = Module ''plugins.alpha'',
         p_instance = Some (Member ''plugins.alpha'' ''instance'')\<rparr>"
  "descriptor sample_runtime
     \<lparr>ep_name = ''Gamma'', ep_module_name = ''plugins.missing'', ep_attrs = []\<rparr> = None"
  "descriptor sample_runtime
     \<lparr>ep_name = ''Beta'', ep_module_name = ''plugins.beta'', ep_attrs = []\<rparr> =
   Some \<lparr>p_name = ''Beta'', p_module = Module ''plugins.beta'', p_instance = None\<rparr>"
  "descriptor sample_runtime
     \<lparr>ep_name = ''Delta'', ep_module_name = ''plugins.beta'', ep_attrs = [''absent'']\<rparr> = None"
  by (simp_all add: descriptor_def sample_runtime_def sample_import_def sample_getattr_def)

lemma sample_folds:
  "casefold sample_runtime ''Alpha'' = ''alpha''" "casefold sample_runtime ''Beta'' = ''beta''"
  "casefold sample_runtime ''Gamma'' = ''gamma''" "casefold sample_runtime ''Delta'' = ''delta''"
  "casefold sample_runtime ''alpha'' = ''alpha''" "casefold sample_runtime ''BETA'' = ''beta''"
  by (simp_all add: sample_runtime_def ascii_lower_def)

text \<open>
  C6. An entry whose module does not import, or whose declared attribute is not found on
  the imported module, is skipped with one message to \<open>spf.error\<close>: the loop body leaves
  the mapping as it is. The pass goes on: its mapping is the one it builds from the other
  entries alone, its error messages are those of the skipped entries in order, and a key
  that no other entry assigns is absent from the mapping. The pass has no way to raise:
  \<open>find_advertised_plugins\<close> returns a mapping and the \<open>spf\<close> object for every list of
  entries.
\<close>

theorem discovery_skips_failed_entry:
  assumes "import_module rt (ep_module_name e) = None \<or>
      (\<exists>m a as. import_module rt (ep_module_name e) = Some m \<and> ep_attrs e = a # as \<and>
         a \<noteq> [] \<and> getattr rt m a = None)"
    and "iter_entry_points rt = pre @ e # post"
  shows "discover_entry rt e (plugins, s) = (plugins, spf_error s (skip_message rt e)) \<and>
    fst (find_advertised_plugins rt spf) =
      fst (find_advertised_plugins (rt\<lparr>iter_entry_points := pre @ post\<rparr>) spf) \<and>
    errors (snd (find_advertised_plugins rt spf)) =
      errors spf @ map (skip_message rt) (filter (\<lambda>e'. descriptor rt e' = None) pre) @
      skip_message rt e # map (skip_message rt) (filter (\<lambda>e'. descriptor rt e' = None) post) \<and>
    (writers rt k (pre @ post) = [] \<longrightarrow> map_of (fst (find_advertised_plugins rt spf)) k = None)"
proof -
  from assms(1) have none: "descriptor rt e = None"
    by (simp only: descriptor_None_iff)
  have 1: "discover_entry rt e (plugins, s) = (plugins, spf_error s (skip_message rt e))"
    by (simp add: discover_entry_cases none)
  have 2: "fst (find_advertised_plugins rt spf) =
      fst (find_advertised_plugins (rt\<lparr>iter_entry_points := pre @ post\<rparr>) spf)"
    using fold_discover_skip [OF none, of pre post "[]" spf]
    by (simp add: find_advertised_plugins_def assms(2))
  have 3: "errors (snd (find_advertised_plugins rt spf)) =
      errors spf @ map (skip_message rt) (filter (\<lambda>e'. descriptor rt e' = None) pre) @
      skip_message rt e # map (skip_message rt) (filter (\<lambda>e'. descriptor rt e' = None) post)"
  proof -
    have "errors (snd (find_advertised_plugins rt spf)) =
        errors spf @
        map (skip_message rt) (filter (\<lambda>e'. descriptor rt e' = None) (pre @ e # post))"
      by (simp only: find_advertised_plugins_def assms(2) errors_fold_discover)
    then show ?thesis by (simp add: none)
  qed
  have "writers rt k (pre @ e # post) = writers rt k (pre @ post)"
    by (simp add: writers_def none)
  then have 4: "writers rt k (pre @ post) = [] \<longrightarrow>
      map_of (fst (find_advertised_plugins rt spf)) k = None"
    by (simp add: map_of_find_advertised assms(2))
  from 1 2 3 4 show ?thesis by (intro conjI)
qed

theorem discovery_skips_failed_entry_witness:
  "import_module sample_runtime ''plugins.missing'' = None \<and>
   errors (snd (find_advertised_plugins sample_runtime empty_spf)) =
     [''Cannot import plugins.missing'', ''Cannot import absent from plugins.beta''] \<and>
   map_of (fst (find_advertised_plugins sample_runtime empty_spf)) ''Gamma'' = None \<and>
   map_of (fst (find_advertised_plugins sample_runtime empty_spf)) ''gamma'' = None"
proof -
  let ?a = "\<lparr>ep_name = ''Alpha'', ep_module_name = ''plugins.alpha'', ep_attrs = [''instance'']\<rparr>"
  let ?g = "\<lparr>ep_name = ''Gamma'', ep_module_name = ''plugins.missing'', ep_attrs = []\<rparr>"
  let ?b = "\<lparr>ep_name = ''Beta'', ep_module_name = ''plugins.beta'', ep_attrs = []\<rparr>"
  let ?d = "\<lparr>ep_name = ''Delta'', ep_module_name = ''plugins.beta'', ep_attrs = [''absent'']\<rparr>"
  have i: "import_module sample_runtime ''plugins.missing'' = None"
    by (simp add: sample_runtime_def sample_import_def)
  then have h1: "import_module sample_runtime (ep_module_name ?g) = None \<or>
      (\<exists>m a as. import_module sample_runtime (ep_module_name ?g) = Some m \<and>
         ep_attrs ?g = a # as \<and> a \<noteq> [] \<and> getattr sample_runtime m a = None)"
    by simp
  have h2: "iter_entry_points sample_runtime = [?a] @ ?g # [?b, ?d]"
    by (simp add: sample_runtime_def)
  have w: "writers sample_runtime ''Gamma'' ([?a] @ [?b, ?d]) = []"
    "writers sample_runtime ''gamma'' ([?a] @ [?b, ?d]) = []"
    by (simp_all add: writers_def sample_descriptors sample_folds)
  have m: "skip_message sample_runtime ?g = ''Cannot import plugins.missing''"
    "skip_message sample_runtime ?d = ''Cannot import absent from plugins.beta''"
    by (simp_all add: skip_message_def sample_runtime_def sample_import_def)
  note t1 = discovery_skips_failed_entry [OF h1 h2, of "[]" empty_spf empty_spf "''Gamma''"]
  note t2 = discovery_skips_failed_entry [OF h1 h2, of "[]" empty_spf empty_spf "''gamma''"]
  from t1 [THEN conjunct2, THEN conjunct2, THEN conjunct1]
  have e: "errors (snd (find_advertised_plugins sample_runtime empty_spf)) =
      [''Cannot import plugins.missing'', ''Cannot import absent from plugins.beta'']"
    by (simp add: sample_descriptors m empty_spf_def)
  from t1 [THEN conjunct2, THEN conjunct2, THEN conjunct2] w(1)
  have g1: "map_of (fst (find_advertised_plugins sample_runtime empty_spf)) ''Gamma'' = None"
    by (rule mp)
  from t2 [THEN conjunct2, THEN conjunct2, THEN conjunct2] w(2)
  have g2: "map_of (fst (find_advertised_plugins sample_runtime empty_spf)) ''gamma'' = None"
    by (rule mp)
  from i e g1 g2 show ?thesis by (intro conjI)
qed

lemma writers_last_self:
  assumes "descriptor rt e = Some d" "ep_name e = k \<or> casefold rt (ep_name e) = k"
    and "writers rt k post = []"
  shows "writers rt k (pre @ e # post) \<noteq> [] \<and> last (writers rt k (pre @ e # post)) = e"
  using assms by (simp add: writers_append writers_Cons)

lemma map_of_find_last_writer:
  assumes "iter_entry_points rt = pre @ e # post" "descriptor rt e = Some d"
    and "ep_name e = k \<or> casefold rt (ep_name e) = k"
    and "writers rt k post = []"
  shows "map_of (fst (find_advertised_plugins rt spf)) k = Some d"
  using writers_last_self [OF assms(2) assms(3) assms(4), of pre] assms(1) assms(2)
  by (simp add: map_of_find_advertised)

lemma no_folded_writers:
  assumes idem: "\<And>t. casefold rt (casefold rt t) = casefold rt t"
    and later: "\<And>e'. e' \<in> set post \<Longrightarrow> descriptor rt e' \<noteq> None \<Longrightarrow>
      casefold rt (ep_name e') \<noteq> casefold rt n"
  shows "writers rt (casefold rt n) post = []"
proof -
  have "\<not> (descriptor rt e' \<noteq> None \<and>
      (ep_name e' = casefold rt n \<or> casefold rt (ep_name e') = casefold rt n))"
    if "e' \<in> set post" for e'
  proof
    assume a: "descriptor rt e' \<noteq> None \<and>
      (ep_name e' = casefold rt n \<or> casefold rt (ep_name e') = casefold rt n)"
    then have "casefold rt (ep_name e') = casefold rt n"
      using idem [of n] by auto
    with later [OF that] a show False by simp
  qed
  then show ?thesis by (simp add: writers_def filter_empty_conv)
qed

text \<open>
  C5, as the claim states it: every entry that is processed successfully would have its
  descriptor in the resulting mapping under its literal name and under its case-folded
  name. With the entry points \<open>alpha\<close> and \<open>Alpha\<close>, in this order, the first is processed
  successfully and the resulting mapping holds the descriptor of the second under the
  literal name of the first (which is its case-folded name too): the descriptor of the
  first is under no key at all.
\<close>

theorem discovery_both_keys_counterexample:
  "iter_entry_points clash_runtime =
     [\<lparr>ep_name = ''alpha'', ep_module_name = ''plugins.alpha'', ep_attrs = []\<rparr>,
      \<lparr>ep_name = ''Alpha'', ep_module_name = ''plugins.beta'', ep_attrs = []\<rparr>] \<and>
   descriptor clash_runtime
     \<lparr>ep_name = ''alpha'', ep_module_name = ''plugins.alpha'', ep_attrs = []\<rparr> =
     Some \<lparr>p_name = ''alpha'', p_module = Module ''plugins.alpha'', p_instance = None\<rparr> \<and>
   map_of (fst (find_advertised_plugins clash_runtime empty_spf)) ''alpha'' \<noteq>
     Some \<lparr>p_name = ''alpha'', p_module = Module ''plugins.alpha'', p_instance = None\<rparr> \<and>
   fst (find_advertised_plugins clash_runtime empty_spf) =
     [(''alpha'', \<lparr>p_name = ''Alpha'', p_module = Module ''plugins.beta'', p_instance = None\<rparr>),
      (''Alpha'', \<lparr>p_name = ''Alpha'', p_module = Module ''plugins.beta'', p_instance = None\<rparr>)]"
proof -
  let ?a = "\<lparr>ep_name = ''alpha'', ep_module_name = ''plugins.alpha'', ep_attrs = []\<rparr>"
  let ?b = "\<lparr>ep_name = ''Alpha'', ep_module_name = ''plugins.beta'', ep_attrs = []\<rparr>"
  have eps: "iter_entry_points clash_runtime = [?a, ?b]"
    by (simp add: clash_runtime_def)
  have da: "descriptor clash_runtime ?a =
      Some \<lparr>p_name = ''alpha'', p_module = Module ''plugins.alpha'', p_instance = None\<rparr>"
    by (simp add: clash_runtime_def descriptor_def sample_runtime_def sample_import_def)
  have db: "descriptor clash_runtime ?b =
      Some \<lparr>p_name = ''Alpha'', p_module = Module ''plugins.beta'', p_instance = None\<rparr>"
    by (simp add: clash_runtime_def descriptor_def sample_runtime_def sample_import_def)
  have cf: "casefold clash_runtime ''alpha'' = ''alpha''"
    "casefold clash_runtime ''Alpha'' = ''alpha''"
    by (simp_all add: clash_runtime_def sample_runtime_def ascii_lower_def)
  have m: "fst (find_advertised_plugins clash_runtime empty_spf) =
     [(''alpha'', \<lparr>p_name = ''Alpha'', p_module = Module ''plugins.beta'', p_instance = None\<rparr>),
      (''Alpha'', \<lparr>p_name = ''Alpha'', p_module = Module ''plugins.beta'', p_instance = None\<rparr>)]"
    by (simp add: find_advertised_plugins_def eps discover_entry_cases da db add_plugin_def cf)
  from eps da m show ?thesis by simp
qed

text \<open>
  C5, amended. When the loop body has processed an entry successfully, the mapping holds
  the entry's descriptor under its literal name and under its case-folded name, the same
  descriptor under both. In the resulting mapping every key maps to the descriptor of the
  last successfully processed entry whose literal or case-folded name is that key (last
  writer wins; nothing is raised), and is absent when there is no such entry. So the
  descriptor of an entry is still under both of its keys at the end when no later
  successfully processed entry assigns to them; and when several discovered entries have
  names that case-fold to the same key, the case-folded key maps to the descriptor of the
  one discovered last (\<open>casefold\<close> being idempotent, as \<open>str.casefold\<close> is).
\<close>

theorem discovery_last_writer_wins:
  "(descriptor rt e = Some d \<longrightarrow>
      map_of (fst (discover_entry rt e (plugins, s))) (ep_name e) = Some d \<and>
      map_of (fst (discover_entry rt e (plugins, s))) (casefold rt (ep_name e)) = Some d) \<and>
   map_of (fst (find_advertised_plugins rt spf)) k =
     (if writers rt k (iter_entry_points rt) = [] then None
      else descriptor rt (last (writers rt k (iter_entry_points rt)))) \<and>
   (iter_entry_points rt = pre @ e # post \<and> descriptor rt e = Some d \<and>
    writers rt (ep_name e) post = [] \<and> writers rt (casefold rt (ep_name e)) post = [] \<longrightarrow>
      map_of (fst (find_advertised_plugins rt spf)) (ep_name e) = Some d \<and>
      map_of (fst (find_advertised_plugins rt spf)) (casefold rt (ep_name e)) = Some d) \<and>
   ((\<forall>t. casefold rt (casefold rt t) = casefold rt t) \<and>
    iter_entry_points rt = pre @ e # post \<and> descriptor rt e = Some d \<and>
    (\<forall>e' \<in> set post. descriptor rt e' \<noteq> None \<longrightarrow>
       casefold rt (ep_name e') \<noteq> casefold rt (ep_name e)) \<longrightarrow>
      map_of (fst (find_advertised_plugins rt spf)) (casefold rt (ep_name e)) = Some d)"
proof (intro conjI impI)
  assume "descriptor rt e = Some d"
  then show "map_of (fst (discover_entry rt e (plugins, s))) (ep_name e) = Some d"
    and "map_of (fst (discover_entry rt e (plugins, s))) (casefold rt (ep_name e)) = Some d"
    by (simp_all add: discover_entry_cases map_of_add_plugin)
next
  show "map_of (fst (find_advertised_plugins rt spf)) k =
     (if writers rt k (iter_entry_points rt) = [] then None
      else descriptor rt (last (writers rt k (iter_entry_points rt))))"
    by (rule map_of_find_advertised)
next
  assume a: "iter_entry_points rt = pre @ e # post \<and> descriptor rt e = Some d \<and>
    writers rt (ep_name e) post = [] \<and> writers rt (casefold rt (ep_name e)) post = []"
  then show "map_of (fst (find_advertised_plugins rt spf)) (ep_name e) = Some d"
    by (intro map_of_find_last_writer [of rt pre e post]) simp_all
  from a show "map_of (fst (find_advertised_plugins rt spf)) (casefold rt (ep_name e)) = Some d"
    by (intro map_of_find_last_writer [of rt pre e post]) simp_all
next
  assume a: "(\<forall>t. casefold rt (casefold rt t) = casefold rt t) \<and>
    iter_entry_points rt = pre @ e # post \<and> descriptor rt e = Some d \<and>
    (\<forall>e' \<in> set post. descriptor rt e' \<noteq> None \<longrightarrow>
       casefold rt (ep_name e') \<noteq> casefold rt (ep_name e))"
  then have "writers rt (casefold rt (ep_name e)) post = []"
    by (intro no_folded_writers) auto
  with a show "map_of (fst (find_advertised_plugins rt spf)) (casefold rt (ep_name e)) = Some d"
    by (intro map_of_find_last_writer [of rt pre e post]) simp_all
qed

theorem discovery_last_writer_wins_witness:
  "descriptor sample_runtime
     \<lparr>ep_name = ''Beta'', ep_module_name = ''plugins.beta'', ep_attrs = []\<rparr> =
     Some \<lparr>p_name = ''Beta'', p_module = Module ''plugins.beta'', p_instance = None\<rparr> \<and>
   (\<forall>t. casefold sample_runtime (casefold sample_runtime t) = casefold sample_runtime t) \<and>
   map_of (fst (find_advertised_plugins sample_runtime empty_spf)) ''Beta'' =
     Some \<lparr>p_name = ''Beta'', p_module = Module ''plugins.beta'', p_instance = None\<rparr> \<and>
   map_of (fst (find_advertised_plugins sample_runtime empty_spf)) ''beta'' =
     Some \<lparr>p_name = ''Beta'', p_module = Module ''plugins.beta'', p_instance = None\<rparr>"
proof -
  let ?a = "\<lparr>ep_name = ''Alpha'', ep_module_name = ''plugins.alpha'', ep_attrs = [''instance'']\<rparr>"
  let ?g = "\<lparr>ep_name = ''Gamma'', ep_module_name = ''plugins.missing'', ep_attrs = []\<rparr>"
  let ?b = "\<lparr>ep_name = ''Beta'', ep_module_name = ''plugins.beta'', ep_attrs = []\<rparr>"
  let ?d = "\<lparr>ep_name = ''Delta'', ep_module_name = ''plugins.beta'', ep_attrs = [''absent'']\<rparr>"
  let ?pd = "\<lparr>p_name = ''Beta'', p_module = Module ''plugins.beta'', p_instance = None\<rparr>"
  have h1: "iter_entry_points sample_runtime = [?a, ?g] @ ?b # [?d]"
    by (rule sample_entry_points)
  have h2: "descriptor sample_runtime ?b = Some ?pd"
    by (rule sample_descriptors)
  have h3: "writers sample_runtime (ep_name ?b) [?d] = []"
    "writers sample_runtime (casefold sample_runtime (ep_name ?b)) [?d] = []"
    by (simp_all add: writers_def sample_descriptors)
  have h4: "\<forall>t. casefold sample_runtime (casefold sample_runtime t) = casefold sample_runtime t"
    by (simp add: sample_casefold_idem)
  have h5: "\<forall>e' \<in> set [?d]. descriptor sample_runtime e' \<noteq> None \<longrightarrow>
      casefold sample_runtime (ep_name e') \<noteq> casefold sample_runtime (ep_name ?b)"
    by (simp add: sample_descriptors)
  note t = discovery_last_writer_wins
    [of sample_runtime ?b ?pd "[]" empty_spf empty_spf "''Beta''" "[?a, ?g]" "[?d]"]
  from t [THEN conjunct2, THEN conjunct2, THEN conjunct1] h1 h2 h3
  have r1: "map_of (fst (find_advertised_plugins sample_runtime empty_spf)) (ep_name ?b) = Some ?pd"
    by blast
  from t [THEN conjunct2, THEN conjunct2, THEN conjunct2] h1 h2 h4 h5
  have r2: "map_of (fst (find_advertised_plugins sample_runtime empty_spf))
      (casefold sample_runtime (ep_name ?b)) = Some ?pd"
    by blast
  from r1 r2 h2 h4 show ?thesis by (simp add: sample_folds)
qed

section \<open>Registration\<close>

lemma calls_spf_info [simp]: "calls (spf_info spf msg) = calls spf"
  by (simp add: spf_info_def)

lemma register_plugin_result:
  "fst (register_plugin rt spf p args kwargs) =
     (case host_register rt (calls spf) (p, args, kwargs) of
        Inl x \<Rightarrow> Inl (Raised x)
      | Inr assoc \<Rightarrow> Inr assoc)"
  "calls (snd (register_plugin rt spf p args kwargs)) = calls spf @ [(p, args, kwargs)]"
  by (simp_all add: register_plugin_def Let_def)

lemma target_hit:
  "map_of advertised_plugins (casefold rt plugin) = Some pd \<Longrightarrow>
     target rt advertised_plugins plugin =
       Some (case p_instance pd of
               None \<Rightarrow> p_module pd
             | Some i \<Rightarrow> if truthy rt i then i else p_module pd) \<and>
     call_params rt advertised_plugins plugin = [''spf'', ''app'', ''plugin_def'']"
  by (simp add: target_def call_params_def)

lemma target_miss:
  "map_of advertised_plugins (casefold rt plugin) = None \<Longrightarrow>
     target rt advertised_plugins plugin = import_module rt plugin \<and>
     call_params rt advertised_plugins plugin = [''spf'', ''app'', ''plugin_name'']"
  by (simp add: target_def call_params_def)

lemma resolve_and_register_result:
  "fst (resolve_and_register rt adv spf plugin args kwargs) =
     (if binds_twice (call_params rt adv plugin) kwargs then Inl TypeError
      else
        (case target rt adv plugin of
           None \<Rightarrow> Inl (RuntimeError (''Do not know how to register plugin: '' @ plugin))
         | Some p \<Rightarrow>
             (case host_register rt (calls spf) (p, args, kwargs) of
                Inl x \<Rightarrow> Inl (Raised x)
              | Inr assoc \<Rightarrow> Inr assoc)))"
proof (cases "map_of adv (casefold rt plugin)")
  case None
  then show ?thesis
    by (simp add: resolve_and_register_def try_register_other_plugin_def target_miss
        register_plugin_result split: option.splits)
next
  case (Some pd)
  then show ?thesis
    by (simp add: resolve_and_register_def register_advertised_plugin_def target_hit
        register_plugin_result Let_def)
qed

lemma resolve_and_register_calls:
  "calls (snd (resolve_and_register rt adv spf plugin args kwargs)) =
     calls spf @
     (if binds_twice (call_params rt adv plugin) kwargs then []
      else (case target rt adv plugin of None \<Rightarrow> [] | Some p \<Rightarrow> [(p, args, kwargs)]))"
proof (cases "map_of adv (casefold rt plugin)")
  case None
  then show ?thesis
    by (simp add: resolve_and_register_def try_register_other_plugin_def target_miss
        register_plugin_result split: option.splits)
next
  case (Some pd)
  then show ?thesis
    by (simp add: resolve_and_register_def register_advertised_plugin_def target_hit
        register_plugin_result Let_def)
qed

lemma register_entry_fst:
  "fst (register_entry rt adv (plugin, options) registered spf) =
     (case fst (resolve_and_register rt adv
                  (spf_info spf (''Loading plugin: '' @ plugin @ ''...'')) plugin
                  (fst (entry_options rt options)) (snd (entry_options rt options))) of
        Inl e \<Rightarrow> Inl e
      | Inr assoc \<Rightarrow> Inr (AList.update (plugin_name (snd assoc)) assoc registered))"
  by (simp add: register_entry_def Let_def split: prod.splits sum.splits)

lemma register_entry_snd:
  "snd (register_entry rt adv (plugin, options) registered spf) =
     snd (resolve_and_register rt adv
            (spf_info spf (''Loading plugin: '' @ plugin @ ''...'')) plugin
            (fst (entry_options rt options)) (snd (entry_options rt options)))"
  by (simp add: register_entry_def Let_def split: prod.splits sum.splits)

lemma register_entry_result:
  "fst (register_entry rt adv entry registered spf) =
     (case planned_call rt adv entry of
        None \<Rightarrow> Inl (entry_error rt adv entry)
      | Some c \<Rightarrow>
          (case host_register rt (calls spf) c of
             Inl x \<Rightarrow> Inl (Raised x)
           | Inr assoc \<Rightarrow> Inr (AList.update (plugin_name (snd assoc)) assoc registered)))"
  by (cases entry)
    (simp add: register_entry_fst resolve_and_register_result planned_call_def entry_error_def
      split: prod.splits option.splits sum.splits)

lemma register_entry_calls:
  "calls (snd (register_entry rt adv entry registered spf)) =
     calls spf @ (case planned_call rt adv entry of None \<Rightarrow> [] | Some c \<Rightarrow> [c])"
  by (cases entry)
    (simp add: register_entry_snd resolve_and_register_calls planned_call_def
      split: prod.splits option.splits)

lemma record_all_Cons:
  "record_all (a # assocs) registered =
     record_all assocs (AList.update (plugin_name (snd a)) a registered)"
  by (simp add: record_all_def)

lemma register_entry_success:
  assumes "register_entry rt adv e registered spf = (Inr reg1, s1)"
  shows "\<exists>c a. planned_call rt adv e = Some c \<and> host_register rt (calls spf) c = Inr a \<and>
           reg1 = AList.update (plugin_name (snd a)) a registered \<and>
           calls s1 = calls spf @ [c]"
proof -
  from assms have f: "fst (register_entry rt adv e registered spf) = Inr reg1"
    and s: "calls (snd (register_entry rt adv e registered spf)) = calls s1"
    by simp_all
  from f obtain c where c: "planned_call rt adv e = Some c"
    by (auto simp add: register_entry_result split: option.splits)
  from f c obtain a where a: "host_register rt (calls spf) c = Inr a"
    and r: "reg1 = AList.update (plugin_name (snd a)) a registered"
    by (auto simp add: register_entry_result split: sum.splits)
  from s c have "calls s1 = calls spf @ [c]"
    by (simp add: register_entry_calls)
  with c a r show ?thesis by blast
qed

lemma register_entry_failure:
  assumes "register_entry rt adv e registered spf = (Inl err, s1)"
  shows "(planned_call rt adv e = None \<and> err = entry_error rt adv e \<and> calls s1 = calls spf) \<or>
         (\<exists>c x. planned_call rt adv e = Some c \<and> host_register rt (calls spf) c = Inl x \<and>
            err = Raised x \<and> calls s1 = calls spf @ [c])"
proof -
  from assms have f: "fst (register_entry rt adv e registered spf) = Inl err"
    and s: "calls (snd (register_entry rt adv e registered spf)) = calls s1"
    by simp_all
  show ?thesis
  proof (cases "planned_call rt adv e")
    case None
    with f s show ?thesis
      by (simp add: register_entry_result register_entry_calls)
  next
    case (Some c)
    with f obtain x where "host_register rt (calls spf) c = Inl x" "err = Raised x"
      by (auto simp add: register_entry_result split: sum.splits)
    moreover from s Some have "calls s1 = calls spf @ [c]"
      by (simp add: register_entry_calls)
    ultimately show ?thesis using Some by blast
  qed
qed

lemma register_loop_success:
  "register_loop rt adv entries registered spf = (Inr result, spf') \<Longrightarrow>
     \<exists>cs assocs. calls spf' = calls spf @ cs \<and>
       map (planned_call rt adv) entries = map Some cs \<and>
       replies rt (calls spf) cs = map Inr assocs \<and>
       result = record_all assocs registered"
proof (induction entries arbitrary: registered spf)
  case Nil
  then have "calls spf' = calls spf @ [] \<and> map (planned_call rt adv) [] = map Some [] \<and>
      replies rt (calls spf) [] = map Inr [] \<and> result = record_all [] registered"
    by (simp add: record_all_def)
  then show ?case by blast
next
  case (Cons e es)
  obtain r1 s1 where e: "register_entry rt adv e registered spf = (r1, s1)"
    by (cases "register_entry rt adv e registered spf")
  with Cons.prems obtain reg1 where r1: "r1 = Inr reg1"
    by (cases r1) simp_all
  from Cons.prems e r1 have loop: "register_loop rt adv es reg1 s1 = (Inr result, spf')"
    by simp
  from register_entry_success [OF e [unfolded r1]] obtain c a
    where c: "planned_call rt adv e = Some c" and a: "host_register rt (calls spf) c = Inr a"
      and reg1: "reg1 = AList.update (plugin_name (snd a)) a registered"
      and s1: "calls s1 = calls spf @ [c]"
    by blast
  from Cons.IH [OF loop] obtain cs assocs
    where cs: "calls spf' = calls s1 @ cs" "map (planned_call rt adv) es = map Some cs"
      "replies rt (calls s1) cs = map Inr assocs" "result = record_all assocs reg1"
    by blast
  have "calls spf' = calls spf @ (c # cs) \<and>
      map (planned_call rt adv) (e # es) = map Some (c # cs) \<and>
      replies rt (calls spf) (c # cs) = map Inr (a # assocs) \<and>
      result = record_all (a # assocs) registered"
    using cs c a reg1 s1 by (simp add: record_all_Cons)
  then show ?case by blast
qed

lemma register_loop_failure:
  "register_loop rt adv entries registered spf = (Inl err, spf') \<Longrightarrow>
     \<exists>pre e post r1 s1. entries = pre @ e # post \<and>
       register_loop rt adv pre registered spf = (Inr r1, s1) \<and>
       register_entry rt adv e r1 s1 = (Inl err, spf')"
proof (induction entries arbitrary: registered spf)
  case Nil
  then show ?case by simp
next
  case (Cons e es)
  obtain r1 s1 where e: "register_entry rt adv e registered spf = (r1, s1)"
    by (cases "register_entry rt adv e registered spf")
  show ?case
  proof (cases r1)
    case (Inl err1)
    with Cons.prems e have "err1 = err" "s1 = spf'" by simp_all
    with e Inl have "e # es = [] @ e # es \<and>
        register_loop rt adv [] registered spf = (Inr registered, spf) \<and>
        register_entry rt adv e registered spf = (Inl err, spf')"
      by simp
    then show ?thesis by blast
  next
    case (Inr reg1)
    with Cons.prems e have "register_loop rt adv es reg1 s1 = (Inl err, spf')" by simp
    from Cons.IH [OF this] obtain pre e' post r2 s2
      where p: "es = pre @ e' # post" "register_loop rt adv pre reg1 s1 = (Inr r2, s2)"
        "register_entry rt adv e' r2 s2 = (Inl err, spf')"
      by blast
    from p e Inr have "e # es = (e # pre) @ e' # post \<and>
        register_loop rt adv (e # pre) registered spf = (Inr r2, s2) \<and>
        register_entry rt adv e' r2 s2 = (Inl err, spf')"
      by simp
    then show ?thesis by blast
  qed
qed

lemma calls_find_advertised: "calls (snd (find_advertised_plugins rt spf)) = calls spf"
  by (simp add: find_advertised_plugins_def calls_fold_discover)

lemma register_plugins_loop:
  "register_plugins rt spf config_plugins =
     register_loop rt (fst (find_advertised_plugins rt spf)) config_plugins []
       (snd (find_advertised_plugins rt spf))"
  by (simp add: register_plugins_def split: prod.splits)

lemma register_loop_step:
  "register_loop rt adv (e # es) registered spf =
     (case fst (register_entry rt adv e registered spf) of
        Inl err \<Rightarrow> (Inl err, snd (register_entry rt adv e registered spf))
      | Inr reg1 \<Rightarrow> register_loop rt adv es reg1 (snd (register_entry rt adv e registered spf)))"
  by (simp split: prod.splits sum.splits)

lemma sample_advertised:
  "fst (find_advertised_plugins sample_runtime spf) =
     [(''Alpha'', \<lparr>p_name = ''Alpha'', p_module = Module ''plugins.alpha'',
                   p_instance = Some (Member ''plugins.alpha'' ''instance'')\<rparr>),
      (''alpha'', \<lparr>p_name = ''Alpha'', p_module = Module ''plugins.alpha'',
                   p_instance = Some (Member ''plugins.alpha'' ''instance'')\<rparr>),
      (''Beta'', \<lparr>p_name = ''Beta'', p_module = Module ''plugins.beta'', p_instance = None\<rparr>),
      (''beta'', \<lparr>p_name = ''Beta'', p_module = Module ''plugins.beta'', p_instance = None\<rparr>)]"
  by (simp add: find_advertised_plugins_def sample_entry_points discover_entry_cases
      sample_descriptors add_plugin_def sample_folds)

lemma sample_more_folds:
  "casefold sample_runtime ''ALPHA'' = ''alpha''"
  "casefold sample_runtime ''no.such'' = ''no.such''"
  "casefold sample_runtime ''adhoc.mod'' = ''adhoc.mod''"
  by (simp_all add: sample_runtime_def ascii_lower_def)

lemma sample_imports:
  "import_module sample_runtime ''no.such'' = None"
  "import_module sample_runtime ''adhoc.mod'' = Some (Module ''adhoc.mod'')"
  by (simp_all add: sample_runtime_def sample_import_def)

lemma sample_options:
  "entry_options sample_runtime (Some ''a,b=1'') = ([PyStr ''a''], [(''b'', PyInt 1)])"
  "entry_options sample_runtime None = ([], [])"
  by (simp_all add: entry_options_def transform_option_dict_def transform_part_def split_part_def
      str_split1_def coerce_val_def store_def sample_runtime_sel sample_int_vals)

lemma sample_truthy: "truthy sample_runtime (Member m a)" "\<not> truthy sample_runtime Hollow"
  by (simp_all add: sample_runtime_def)

lemma sample_host:
  "host_register sample_runtime h (Member m a, args, kwargs) =
     Inr (Member m a, \<lparr>plugin_name = m\<rparr>)"
  "host_register sample_runtime h (Module m, args, kwargs) =
     Inr (Module m, \<lparr>plugin_name = m\<rparr>)"
  by (simp_all add: sample_runtime_def sample_register_def)

lemma sample_planned:
  "planned_call sample_runtime (fst (find_advertised_plugins sample_runtime spf))
     (''ALPHA'', Some ''a,b=1'') =
   Some (Member ''plugins.alpha'' ''instance'', [PyStr ''a''], [(''b'', PyInt 1)])"
  "planned_call sample_runtime (fst (find_advertised_plugins sample_runtime spf))
     (''no.such'', None) = None"
  "planned_call sample_runtime (fst (find_advertised_plugins sample_runtime spf))
     (''adhoc.mod'', None) = Some (Module ''adhoc.mod'', [], [])"
  "entry_error sample_runtime (fst (find_advertised_plugins sample_runtime spf))
     (''no.such'', None) = RuntimeError ''Do not know how to register plugin: no.such''"
  by (simp_all add: planned_call_def entry_error_def sample_advertised sample_options target_def
      call_params_def binds_twice_def sample_more_folds sample_imports sample_truthy)

text \<open>
  C3. The pass handles the configuration entries in their order and calls the host's
  \<open>register_plugin\<close> once for each, in that order: when it completes, the calls it has
  added are exactly the calls of the entries, one per entry. When it fails, it fails at
  one entry \<open>e\<close> after entries \<open>pre\<close> and before entries \<open>post\<close>: the host has been called
  for each entry of \<open>pre\<close>, once and in order, and these calls are still all that the pass
  has added (besides the call for \<open>e\<close> itself when it is the host that raised there), so
  nothing is undone and no entry of \<open>post\<close> reaches the host.
\<close>

theorem registration_in_order_without_rollback:
  "(register_plugins rt spf config_plugins = (Inr result, spf') \<longrightarrow>
      (\<exists>cs. calls spf' = calls spf @ cs \<and>
         map (planned_call rt (fst (find_advertised_plugins rt spf))) config_plugins =
           map Some cs)) \<and>
   (register_plugins rt spf config_plugins = (Inl err, spf') \<longrightarrow>
      (\<exists>pre e post cs. config_plugins = pre @ e # post \<and>
         map (planned_call rt (fst (find_advertised_plugins rt spf))) pre = map Some cs \<and>
         (planned_call rt (fst (find_advertised_plugins rt spf)) e = None \<and>
          err = entry_error rt (fst (find_advertised_plugins rt spf)) e \<and>
          calls spf' = calls spf @ cs \<or>
          (\<exists>c x. planned_call rt (fst (find_advertised_plugins rt spf)) e = Some c \<and>
             err = Raised x \<and> calls spf' = calls spf @ cs @ [c]))))"
proof (intro conjI impI)
  let ?adv = "fst (find_advertised_plugins rt spf)"
  let ?s0 = "snd (find_advertised_plugins rt spf)"
  assume "register_plugins rt spf config_plugins = (Inr result, spf')"
  then have "register_loop rt ?adv config_plugins [] ?s0 = (Inr result, spf')"
    by (simp add: register_plugins_loop)
  from register_loop_success [OF this] obtain cs
    where "calls spf' = calls ?s0 @ cs" "map (planned_call rt ?adv) config_plugins = map Some cs"
    by blast
  then have "calls spf' = calls spf @ cs \<and> map (planned_call rt ?adv) config_plugins = map Some cs"
    by (simp add: calls_find_advertised)
  then show "\<exists>cs. calls spf' = calls spf @ cs \<and>
      map (planned_call rt ?adv) config_plugins = map Some cs"
    by blast
next
  let ?adv = "fst (find_advertised_plugins rt spf)"
  let ?s0 = "snd (find_advertised_plugins rt spf)"
  assume "register_plugins rt spf config_plugins = (Inl err, spf')"
  then have "register_loop rt ?adv config_plugins [] ?s0 = (Inl err, spf')"
    by (simp add: register_plugins_loop)
  from register_loop_failure [OF this] obtain pre e post r1 s1
    where split: "config_plugins = pre @ e # post"
      and before: "register_loop rt ?adv pre [] ?s0 = (Inr r1, s1)"
      and at: "register_entry rt ?adv e r1 s1 = (Inl err, spf')"
    by blast
  from register_loop_success [OF before] obtain cs
    where cs: "calls s1 = calls ?s0 @ cs" "map (planned_call rt ?adv) pre = map Some cs"
    by blast
  from register_entry_failure [OF at] cs(1)
  have "planned_call rt ?adv e = None \<and> err = entry_error rt ?adv e \<and>
        calls spf' = calls spf @ cs \<or>
        (\<exists>c x. planned_call rt ?adv e = Some c \<and> err = Raised x \<and>
           calls spf' = calls spf @ cs @ [c])"
    by (auto simp add: calls_find_advertised)
  with split cs(2)
  show "\<exists>pre e post cs. config_plugins = pre @ e # post \<and>
         map (planned_call rt ?adv) pre = map Some cs \<and>
         (planned_call rt ?adv e = None \<and> err = entry_error rt ?adv e \<and>
          calls spf' = calls spf @ cs \<or>
          (\<exists>c x. planned_call rt ?adv e = Some c \<and> err = Raised x \<and>
             calls spf' = calls spf @ cs @ [c]))"
    by blast
qed
lemma sample_failing_run:
  "fst (register_plugins sample_runtime empty_spf
          [(''ALPHA'', Some ''a,b=1''), (''no.such'', None), (''adhoc.mod'', None)]) =
     Inl (RuntimeError ''Do not know how to register plugin: no.such'')"
  "calls (snd (register_plugins sample_runtime empty_spf
          [(''ALPHA'', Some ''a,b=1''), (''no.such'', None), (''adhoc.mod'', None)])) =
     [(Member ''plugins.alpha'' ''instance'', [PyStr ''a''], [(''b'', PyInt 1)])]"
  by (simp_all add: register_plugins_loop register_loop_step register_entry_result
      register_entry_calls sample_planned sample_host calls_find_advertised empty_spf_def
      del: register_loop.simps(2))

lemma sample_complete_run:
  "fst (register_plugins sample_runtime empty_spf
          [(''ALPHA'', Some ''a,b=1''), (''adhoc.mod'', None)]) =
     Inr [(''plugins.alpha'',
           (Member ''plugins.alpha'' ''instance'', \<lparr>plugin_name = ''plugins.alpha''\<rparr>)),
          (''adhoc.mod'', (Module ''adhoc.mod'', \<lparr>plugin_name = ''adhoc.mod''\<rparr>))]"
  "calls (snd (register_plugins sample_runtime empty_spf
          [(''ALPHA'', Some ''a,b=1''), (''adhoc.mod'', None)])) =
     [(Member ''plugins.alpha'' ''instance'', [PyStr ''a''], [(''b'', PyInt 1)]),
      (Module ''adhoc.mod'', [], [])]"
  by (simp_all add: register_plugins_loop register_loop_step register_entry_result
      register_entry_calls sample_planned sample_host calls_find_advertised empty_spf_def
      del: register_loop.simps(2))

theorem registration_in_order_without_rollback_witness:
  "fst (register_plugins sample_runtime empty_spf
          [(''ALPHA'', Some ''a,b=1''), (''no.such'', None), (''adhoc.mod'', None)]) =
     Inl (RuntimeError ''Do not know how to register plugin: no.such'') \<and>
   calls (snd (register_plugins sample_runtime empty_spf
          [(''ALPHA'', Some ''a,b=1''), (''no.such'', None), (''adhoc.mod'', None)])) =
     [(Member ''plugins.alpha'' ''instance'', [PyStr ''a''], [(''b'', PyInt 1)])] \<and>
   (\<exists>pre e post cs.
      [(''ALPHA'', Some ''a,b=1''), (''no.such'', None), (''adhoc.mod'', None)] = pre @ e # post \<and>
      map (planned_call sample_runtime (fst (find_advertised_plugins sample_runtime empty_spf)))
        pre = map Some cs \<and>
      (planned_call sample_runtime (fst (find_advertised_plugins sample_runtime empty_spf)) e =
         None \<and>
       RuntimeError ''Do not know how to register plugin: no.such'' =
         entry_error sample_runtime (fst (find_advertised_plugins sample_runtime empty_spf)) e \<and>
       calls (snd (register_plugins sample_runtime empty_spf
          [(''ALPHA'', Some ''a,b=1''), (''no.such'', None), (''adhoc.mod'', None)])) =
         calls empty_spf @ cs \<or>
       (\<exists>c x.
          planned_call sample_runtime (fst (find_advertised_plugins sample_runtime empty_spf)) e =
            Some c \<and>
          RuntimeError ''Do not know how to register plugin: no.such'' = Raised (x::string) \<and>
          calls (snd (register_plugins sample_runtime empty_spf
            [(''ALPHA'', Some ''a,b=1''), (''no.such'', None), (''adhoc.mod'', None)])) =
            calls empty_spf @ cs @ [c]))) \<and>
   (\<exists>cs. calls (snd (register_plugins sample_runtime empty_spf
             [(''ALPHA'', Some ''a,b=1''), (''adhoc.mod'', None)])) = calls empty_spf @ cs \<and>
      map (planned_call sample_runtime (fst (find_advertised_plugins sample_runtime empty_spf)))
        [(''ALPHA'', Some ''a,b=1''), (''adhoc.mod'', None)] = map Some cs)"
proof -
  let ?bad = "[(''ALPHA'', Some ''a,b=1''), (''no.such'', None), (''adhoc.mod'', None)]"
  let ?good = "[(''ALPHA'', Some ''a,b=1''), (''adhoc.mod'', None)]"
  have h1: "register_plugins sample_runtime empty_spf ?bad =
      (Inl (RuntimeError ''Do not know how to register plugin: no.such''),
       snd (register_plugins sample_runtime empty_spf ?bad))"
    by (simp only: prod_eq_iff fst_conv snd_conv sample_failing_run(1) simp_thms)
  have h2: "register_plugins sample_runtime empty_spf ?good =
      (Inr [(''plugins.alpha'',
             (Member ''plugins.alpha'' ''instance'', \<lparr>plugin_name = ''plugins.alpha''\<rparr>)),
            (''adhoc.mod'', (Module ''adhoc.mod'', \<lparr>plugin_name = ''adhoc.mod''\<rparr>))],
       snd (register_plugins sample_runtime empty_spf ?good))"
    by (simp only: prod_eq_iff fst_conv snd_conv sample_complete_run(1) simp_thms)
  note t1 = registration_in_order_without_rollback
    [of sample_runtime empty_spf ?bad _ _ "RuntimeError ''Do not know how to register plugin: no.such''",
      THEN conjunct2, THEN mp, OF h1]
  note t2 = registration_in_order_without_rollback
    [of sample_runtime empty_spf ?good, THEN conjunct1, THEN mp, OF h2]
  show ?thesis
    by (intro conjI) (rule sample_failing_run(1), rule sample_failing_run(2), rule t1, rule t2)
qed

lemma update_new_key: "k \<notin> fst ` set al \<Longrightarrow> AList.update k v al = al @ [(k, v)]"
  by (induction al) auto

lemma distinct_record_all:
  "distinct (map fst registered) \<Longrightarrow> distinct (map fst (record_all assocs registered))"
  by (induction assocs arbitrary: registered) (simp_all add: record_all_def distinct_update)

lemma keys_record_all:
  "fst ` set (record_all assocs registered) =
     fst ` set registered \<union> (\<lambda>a. plugin_name (snd a)) ` set assocs"
  by (induction assocs arbitrary: registered) (auto simp add: record_all_def dom_update)

lemma map_of_record_all:
  "map_of (record_all assocs registered) k =
     (if filter (\<lambda>b. plugin_name (snd b) = k) assocs = [] then map_of registered k
      else Some (last (filter (\<lambda>b. plugin_name (snd b) = k) assocs)))"
  by (induction assocs arbitrary: registered) (auto simp add: record_all_Cons update_conv' record_all_def)

lemma record_all_distinct_names:
  "distinct (map (\<lambda>a. plugin_name (snd a)) assocs) \<Longrightarrow>
   fst ` set registered \<inter> (\<lambda>a. plugin_name (snd a)) ` set assocs = {} \<Longrightarrow>
     record_all assocs registered = registered @ map (\<lambda>a. (plugin_name (snd a), a)) assocs"
proof (induction assocs arbitrary: registered)
  case Nil
  show ?case by (simp add: record_all_def)
next
  case (Cons a assocs)
  from Cons.prems have new: "plugin_name (snd a) \<notin> fst ` set registered" by auto
  have "record_all (a # assocs) registered =
      record_all assocs (registered @ [(plugin_name (snd a), a)])"
    by (simp add: record_all_Cons update_new_key [OF new])
  also have "\<dots> = (registered @ [(plugin_name (snd a), a)]) @
      map (\<lambda>a. (plugin_name (snd a), a)) assocs"
    using Cons.prems by (intro Cons.IH) auto
  finally show ?case by simp
qed

lemma entries_record_all:
  assumes "(k, a) \<in> set (record_all assocs [])"
  shows "k = plugin_name (snd a) \<and> a \<in> set assocs"
proof -
  have "distinct (map fst (record_all assocs []))"
    by (rule distinct_record_all) simp
  with assms have "map_of (record_all assocs []) k = Some a"
    by simp
  then have ne: "filter (\<lambda>b. plugin_name (snd b) = k) assocs \<noteq> []"
    and a: "a = last (filter (\<lambda>b. plugin_name (snd b) = k) assocs)"
    by (simp_all add: map_of_record_all split: if_splits)
  from ne a have "a \<in> set (filter (\<lambda>b. plugin_name (snd b) = k) assocs)"
    using last_in_set by blast
  then show ?thesis by simp
qed

lemma length_replies: "length (replies rt h cs) = length cs"
  by (induction cs arbitrary: h) simp_all

text \<open>
  C9. When the pass completes, the host has answered each entry's call with an
  association, one per configuration entry, and the result mapping is keyed by the
  \<open>plugin_name\<close> of the records in these associations, never by the reference of the
  configuration: its keys are pairwise different, they are exactly the names that the
  records report, every entry of the mapping is one of the returned associations under
  the name of its own record, and every returned association's name maps to the last
  association returned with that name. When the names are pairwise different, the mapping
  has exactly one entry for each configuration entry, in order.
\<close>

theorem result_keyed_by_canonical_name:
  assumes "register_plugins rt spf config_plugins = (Inr result, spf')"
  shows "\<exists>cs assocs. calls spf' = calls spf @ cs \<and> length assocs = length config_plugins \<and>
     replies rt (calls spf) cs = map Inr assocs \<and>
     distinct (map fst result) \<and>
     fst ` set result = (\<lambda>a. plugin_name (snd a)) ` set assocs \<and>
     (\<forall>k a. (k, a) \<in> set result \<longrightarrow> k = plugin_name (snd a) \<and> a \<in> set assocs) \<and>
     (\<forall>a \<in> set assocs.
        map_of result (plugin_name (snd a)) =
          Some (last (filter (\<lambda>b. plugin_name (snd b) = plugin_name (snd a)) assocs))) \<and>
     (distinct (map (\<lambda>a. plugin_name (snd a)) assocs) \<longrightarrow>
        result = map (\<lambda>a. (plugin_name (snd a), a)) assocs \<and>
        length result = length config_plugins)"
proof -
  let ?adv = "fst (find_advertised_plugins rt spf)"
  let ?s0 = "snd (find_advertised_plugins rt spf)"
  from assms have "register_loop rt ?adv config_plugins [] ?s0 = (Inr result, spf')"
    by (simp add: register_plugins_loop)
  from register_loop_success [OF this] obtain cs assocs
    where cs: "calls spf' = calls spf @ cs"
      and pl: "map (planned_call rt ?adv) config_plugins = map Some cs"
      and rp: "replies rt (calls spf) cs = map Inr assocs"
      and res: "result = record_all assocs []"
    by (auto simp add: calls_find_advertised)
  from pl have "length config_plugins = length cs"
    by (metis length_map)
  moreover from rp have "length cs = length assocs"
    by (metis length_map length_replies)
  ultimately have len: "length assocs = length config_plugins" by simp
  have d: "distinct (map fst result)"
    unfolding res by (rule distinct_record_all) simp
  have k: "fst ` set result = (\<lambda>a. plugin_name (snd a)) ` set assocs"
    unfolding res by (simp add: keys_record_all)
  have e: "\<forall>k a. (k, a) \<in> set result \<longrightarrow> k = plugin_name (snd a) \<and> a \<in> set assocs"
    unfolding res by (intro allI impI) (rule entries_record_all)
  have m: "\<forall>a \<in> set assocs.
        map_of result (plugin_name (snd a)) =
          Some (last (filter (\<lambda>b. plugin_name (snd b) = plugin_name (snd a)) assocs))"
    unfolding res by (auto simp add: map_of_record_all filter_empty_conv)
  have u: "distinct (map (\<lambda>a. plugin_name (snd a)) assocs) \<longrightarrow>
        result = map (\<lambda>a. (plugin_name (snd a), a)) assocs \<and>
        length result = length config_plugins"
    unfolding res using record_all_distinct_names [of assocs "[]"] len by simp
  from cs len rp d k e m u show ?thesis by blast
qed
theorem result_keyed_by_canonical_name_witness:
  "register_plugins sample_runtime empty_spf [(''ALPHA'', Some ''a,b=1''), (''adhoc.mod'', None)] =
     (Inr [(''plugins.alpha'',
            (Member ''plugins.alpha'' ''instance'', \<lparr>plugin_name = ''plugins.alpha''\<rparr>)),
           (''adhoc.mod'', (Module ''adhoc.mod'', \<lparr>plugin_name = ''adhoc.mod''\<rparr>))],
      snd (register_plugins sample_runtime empty_spf
             [(''ALPHA'', Some ''a,b=1''), (''adhoc.mod'', None)])) \<and>
   (\<exists>cs assocs.
      calls (snd (register_plugins sample_runtime empty_spf
                    [(''ALPHA'', Some ''a,b=1''), (''adhoc.mod'', None)])) =
        calls empty_spf @ cs \<and>
      length assocs = length [(''ALPHA'', Some ''a,b=1''), (''adhoc.mod'', None :: string option)] \<and>
      replies sample_runtime (calls empty_spf) cs = map Inr assocs \<and>
      distinct (map fst
        [(''plugins.alpha'',
          (Member ''plugins.alpha'' ''instance'', \<lparr>plugin_name = ''plugins.alpha''\<rparr>)),
         (''adhoc.mod'', (Module ''adhoc.mod'', \<lparr>plugin_name = ''adhoc.mod''\<rparr>))]) \<and>
      fst ` set
        [(''plugins.alpha'',
          (Member ''plugins.alpha'' ''instance'', \<lparr>plugin_name = ''plugins.alpha''\<rparr>)),
         (''adhoc.mod'', (Module ''adhoc.mod'', \<lparr>plugin_name = ''adhoc.mod''\<rparr>))] =
        (\<lambda>a. plugin_name (snd a)) ` set assocs)"
proof -
  let ?good = "[(''ALPHA'', Some ''a,b=1''), (''adhoc.mod'', None)]"
  have h: "register_plugins sample_runtime empty_spf ?good =
      (Inr [(''plugins.alpha'',
             (Member ''plugins.alpha'' ''instance'', \<lparr>plugin_name = ''plugins.alpha''\<rparr>)),
            (''adhoc.mod'', (Module ''adhoc.mod'', \<lparr>plugin_name = ''adhoc.mod''\<rparr>))],
       snd (register_plugins sample_runtime empty_spf ?good))"
    by (simp only: prod_eq_iff fst_conv snd_conv sample_complete_run(1) simp_thms)
  from result_keyed_by_canonical_name [OF h] obtain cs assocs where
    "calls (snd (register_plugins sample_runtime empty_spf ?good)) = calls empty_spf @ cs"
    "length assocs = length ?good"
    "replies sample_runtime (calls empty_spf) cs = map Inr assocs"
    "distinct (map fst
        [(''plugins.alpha'',
          (Member ''plugins.alpha'' ''instance'', \<lparr>plugin_name = ''plugins.alpha''\<rparr>)),
         (''adhoc.mod'', (Module ''adhoc.mod'', \<lparr>plugin_name = ''adhoc.mod''\<rparr>))])"
    "fst ` set
        [(''plugins.alpha'',
          (Member ''plugins.alpha'' ''instance'', \<lparr>plugin_name = ''plugins.alpha''\<rparr>)),
         (''adhoc.mod'', (Module ''adhoc.mod'', \<lparr>plugin_name = ''adhoc.mod''\<rparr>))] =
        (\<lambda>a. plugin_name (snd a)) ` set assocs"
    by blast
  with h show ?thesis by blast
qed

lemma hollow_advertised:
  "fst (find_advertised_plugins hollow_runtime spf) =
     [(''Empty'', \<lparr>p_name = ''Empty'', p_module = Module ''plugins.alpha'',
                   p_instance = Some Hollow\<rparr>),
      (''empty'', \<lparr>p_name = ''Empty'', p_module = Module ''plugins.alpha'',
                   p_instance = Some Hollow\<rparr>)]"
proof -
  have d: "descriptor hollow_runtime
      \<lparr>ep_name = ''Empty'', ep_module_name = ''plugins.alpha'', ep_attrs = [''nothing'']\<rparr> =
      Some \<lparr>p_name = ''Empty'', p_module = Module ''plugins.alpha'', p_instance = Some Hollow\<rparr>"
    by (simp add: hollow_runtime_def descriptor_def sample_runtime_def sample_import_def
        sample_getattr_def)
  have c: "casefold hollow_runtime ''Empty'' = ''empty''"
    by (simp add: hollow_runtime_def sample_runtime_def ascii_lower_def)
  have e: "iter_entry_points hollow_runtime =
      [\<lparr>ep_name = ''Empty'', ep_module_name = ''plugins.alpha'', ep_attrs = [''nothing'']\<rparr>]"
    by (simp add: hollow_runtime_def)
  show ?thesis
    by (simp add: find_advertised_plugins_def e discover_entry_cases d add_plugin_def c)
qed

lemma hollow_facts:
  "casefold hollow_runtime ''empty'' = ''empty''"
  "\<not> truthy hollow_runtime Hollow"
  "entry_options hollow_runtime None = ([], [])"
  "host_register hollow_runtime h (Module m, args, kwargs) = Inr (Module m, \<lparr>plugin_name = m\<rparr>)"
  by (simp_all add: hollow_runtime_def sample_runtime_def ascii_lower_def entry_options_def
      sample_register_def)

text \<open>
  C8, as the claim states it: on a hit the object passed to the callback would be the
  descriptor's instance whenever the descriptor has one. The entry point \<open>Empty\<close> names an
  attribute that exists, so its descriptor has an instance, but the truth value of that
  object is false (as that of \<open>None\<close>, of an empty container, of any object whose
  \<open>__bool__\<close> or \<open>__len__\<close> says so): the callback receives the module.
\<close>

theorem hit_passes_instance_counterexample:
  "map_of (fst (find_advertised_plugins hollow_runtime empty_spf))
     (casefold hollow_runtime ''empty'') =
     Some \<lparr>p_name = ''Empty'', p_module = Module ''plugins.alpha'', p_instance = Some Hollow\<rparr> \<and>
   calls (snd (register_plugins hollow_runtime empty_spf [(''empty'', None)])) =
     [(Module ''plugins.alpha'', [], [])]"
proof -
  have p: "planned_call hollow_runtime (fst (find_advertised_plugins hollow_runtime spf))
      (''empty'', None) = Some (Module ''plugins.alpha'', [], [])" for spf :: "(sample_obj, real) spf"
    by (simp add: planned_call_def hollow_advertised hollow_facts target_def call_params_def
        binds_twice_def)
  have "calls (snd (register_plugins hollow_runtime empty_spf [(''empty'', None)])) =
      [(Module ''plugins.alpha'', [], [])]"
    by (simp add: register_plugins_loop register_loop_step register_entry_result
        register_entry_calls p hollow_facts calls_find_advertised empty_spf_def
        del: register_loop.simps(2))
  then show ?thesis
    by (simp add: hollow_advertised hollow_facts)
qed

text \<open>
  C8, amended. When the case-folded reference of a configuration entry hits the discovery
  mapping, and no named argument of the entry is called \<open>spf\<close>, \<open>app\<close> or
  \<open>plugin_def\<close>, the callback is invoked once, with the descriptor's instance when the
  descriptor has one whose truth value is true, and with the descriptor's module
  otherwise, and with the positional and named arguments of the entry: those parsed from
  its option text, or none when the option text is absent or empty.
\<close>

theorem hit_passes_true_instance_or_module:
  assumes "map_of advertised_plugins (casefold rt plugin) = Some pd"
    and "entry_options rt options = (args, kwargs)"
    and "\<not> binds_twice [''spf'', ''app'', ''plugin_def''] kwargs"
  shows "calls (snd (register_entry rt advertised_plugins (plugin, options) registered spf)) =
      calls spf @
      [(case p_instance pd of
          None \<Rightarrow> p_module pd
        | Some i \<Rightarrow> if truthy rt i then i else p_module pd,
        args, kwargs)] \<and>
    (\<forall>s. options = Some s \<and> s \<noteq> [] \<longrightarrow> (args, kwargs) = transform_option_dict rt s) \<and>
    (options = None \<or> options = Some [] \<longrightarrow> args = [] \<and> kwargs = [])"
proof -
  from assms have "planned_call rt advertised_plugins (plugin, options) =
      Some (case p_instance pd of
              None \<Rightarrow> p_module pd
            | Some i \<Rightarrow> if truthy rt i then i else p_module pd,
            args, kwargs)"
    by (simp add: planned_call_def target_hit)
  then have 1: "calls (snd (register_entry rt advertised_plugins (plugin, options) registered spf)) =
      calls spf @
      [(case p_instance pd of
          None \<Rightarrow> p_module pd
        | Some i \<Rightarrow> if truthy rt i then i else p_module pd,
        args, kwargs)]"
    by (simp add: register_entry_calls)
  from assms(2) have 2: "\<forall>s. options = Some s \<and> s \<noteq> [] \<longrightarrow>
      (args, kwargs) = transform_option_dict rt s"
    by (auto simp add: entry_options_def)
  from assms(2) have 3: "options = None \<or> options = Some [] \<longrightarrow> args = [] \<and> kwargs = []"
    by (auto simp add: entry_options_def)
  from 1 2 3 show ?thesis by (intro conjI)
qed

theorem hit_passes_true_instance_or_module_witness:
  "map_of (fst (find_advertised_plugins sample_runtime empty_spf))
     (casefold sample_runtime ''ALPHA'') =
     Some \<lparr>p_name = ''Alpha'', p_module = Module ''plugins.alpha'',
           p_instance = Some (Member ''plugins.alpha'' ''instance'')\<rparr> \<and>
   entry_options sample_runtime (Some ''a,b=1'') = ([PyStr ''a''], [(''b'', PyInt 1)]) \<and>
   \<not> binds_twice [''spf'', ''app'', ''plugin_def''] [(''b'', PyInt 1 :: real scalar)] \<and>
   calls (snd (register_entry sample_runtime (fst (find_advertised_plugins sample_runtime empty_spf))
                 (''ALPHA'', Some ''a,b=1'') [] empty_spf)) =
     [(Member ''plugins.alpha'' ''instance'', [PyStr ''a''], [(''b'', PyInt 1)])]"
proof -
  let ?pd = "\<lparr>p_name = ''Alpha'', p_module = Module ''plugins.alpha'',
               p_instance = Some (Member ''plugins.alpha'' ''instance'')\<rparr>"
  have h1: "map_of (fst (find_advertised_plugins sample_runtime empty_spf))
      (casefold sample_runtime ''ALPHA'') = Some ?pd"
    by (simp add: sample_advertised sample_more_folds)
  have h2: "entry_options sample_runtime (Some ''a,b=1'') = ([PyStr ''a''], [(''b'', PyInt 1)])"
    by (rule sample_options)
  have h3: "\<not> binds_twice [''spf'', ''app'', ''plugin_def''] [(''b'', PyInt 1 :: real scalar)]"
    by (simp add: binds_twice_def)
  from hit_passes_true_instance_or_module [OF h1 h2 h3, of "[]" empty_spf, THEN conjunct1]
  have "calls (snd (register_entry sample_runtime
                 (fst (find_advertised_plugins sample_runtime empty_spf))
                 (''ALPHA'', Some ''a,b=1'') [] empty_spf)) =
     [(Member ''plugins.alpha'' ''instance'', [PyStr ''a''], [(''b'', PyInt 1)])]"
    by (simp add: sample_truthy empty_spf_def)
  with h1 h2 h3 show ?thesis by (intro conjI)
qed

lemma unresolved_reference_is_fatal:
  assumes "map_of advertised_plugins (casefold rt plugin) = None"
    and "import_module rt plugin = None"
    and "\<not> binds_twice [''spf'', ''app'', ''plugin_name''] (snd (entry_options rt options))"
  shows "fst (register_loop rt advertised_plugins ((plugin, options) # post) registered spf) =
      Inl (RuntimeError (''Do not know how to register plugin: '' @ plugin)) \<and>
    calls (snd (register_loop rt advertised_plugins ((plugin, options) # post) registered spf)) =
      calls spf"
proof -
  from assms have p: "planned_call rt advertised_plugins (plugin, options) = None"
    by (simp add: planned_call_def target_miss split: prod.splits)
  from assms have e: "entry_error rt advertised_plugins (plugin, options) =
      RuntimeError (''Do not know how to register plugin: '' @ plugin)"
    by (simp add: entry_error_def target_miss)
  show ?thesis
    by (simp add: register_loop_step register_entry_result register_entry_calls p e
        del: register_loop.simps(2))
qed

lemma imported_reference_is_registered:
  assumes "map_of advertised_plugins (casefold rt plugin) = None"
    and "import_module rt plugin = Some m"
    and "entry_options rt options = (args, kwargs)"
    and "\<not> binds_twice [''spf'', ''app'', ''plugin_name''] kwargs"
  shows "calls (snd (register_entry rt advertised_plugins (plugin, options) registered spf)) =
      calls spf @ [(m, args, kwargs)] \<and>
    fst (register_entry rt advertised_plugins (plugin, options) registered spf) =
      (case host_register rt (calls spf) (m, args, kwargs) of
         Inl x \<Rightarrow> Inl (Raised x)
       | Inr assoc \<Rightarrow> Inr (AList.update (plugin_name (snd assoc)) assoc registered))"
proof -
  from assms have "planned_call rt advertised_plugins (plugin, options) = Some (m, args, kwargs)"
    by (simp add: planned_call_def target_miss)
  then show ?thesis
    by (simp add: register_entry_result register_entry_calls)
qed

lemma sample_clash_options:
  "entry_options sample_runtime (Some ''plugin_name=x'') = ([], [(''plugin_name'', PyStr ''x'')])"
  "entry_options sample_runtime (Some ''app=1'') = ([], [(''app'', PyInt 1)])"
proof -
  have i: "sample_int ''x'' = None"
    by (simp add: sample_int_def digit_string_def)
  show "entry_options sample_runtime (Some ''plugin_name=x'') =
      ([], [(''plugin_name'', PyStr ''x'')])"
    by (simp add: entry_options_def transform_option_dict_def transform_part_def split_part_def
        str_split1_def coerce_val_def store_def sample_runtime_sel i)
  show "entry_options sample_runtime (Some ''app=1'') = ([], [(''app'', PyInt 1)])"
    by (simp add: entry_options_def transform_option_dict_def transform_part_def split_part_def
        str_split1_def coerce_val_def store_def sample_runtime_sel sample_int_vals)
qed

text \<open>
  C2. The claim does not hold of the code for an entry that has a named argument called
  \<open>spf\<close>, \<open>app\<close> or \<open>plugin_name\<close>. The reference \<open>no.such\<close> is not advertised and does
  not import, and its option text is \<open>plugin_name=x\<close>: the call
  \<open>_try_register_other_plugin(spf, app, plugin, *args, **kwargs)\<close> binds \<open>plugin_name\<close>
  twice and raises \<open>TypeError\<close> before the import is tried, so the error that leaves the
  pass is not the \<open>RuntimeError\<close> that names the reference. The reference \<open>adhoc.mod\<close> is
  not advertised and does import, and its option text is \<open>app=1\<close>: the pass raises the
  same \<open>TypeError\<close> and the host is never called. For every other entry the claim holds
  (\<open>unresolved_reference_is_fatal\<close>, \<open>imported_reference_is_registered\<close>).
\<close>

theorem unresolved_reference_keyword_clash:
  "map_of (fst (find_advertised_plugins sample_runtime empty_spf))
     (casefold sample_runtime ''no.such'') = None \<and>
   import_module sample_runtime ''no.such'' = None \<and>
   fst (register_plugins sample_runtime empty_spf [(''no.such'', Some ''plugin_name=x'')]) =
     Inl TypeError \<and>
   map_of (fst (find_advertised_plugins sample_runtime empty_spf))
     (casefold sample_runtime ''adhoc.mod'') = None \<and>
   import_module sample_runtime ''adhoc.mod'' = Some (Module ''adhoc.mod'') \<and>
   fst (register_plugins sample_runtime empty_spf [(''adhoc.mod'', Some ''app=1'')]) =
     Inl TypeError \<and>
   calls (snd (register_plugins sample_runtime empty_spf [(''adhoc.mod'', Some ''app=1'')])) = []"
proof -
  have p: "planned_call sample_runtime (fst (find_advertised_plugins sample_runtime spf))
        (''no.such'', Some ''plugin_name=x'') = None"
    "entry_error sample_runtime (fst (find_advertised_plugins sample_runtime spf))
        (''no.such'', Some ''plugin_name=x'') = TypeError"
    "planned_call sample_runtime (fst (find_advertised_plugins sample_runtime spf))
        (''adhoc.mod'', Some ''app=1'') = None"
    "entry_error sample_runtime (fst (find_advertised_plugins sample_runtime spf))
        (''adhoc.mod'', Some ''app=1'') = TypeError"
    for spf :: "(sample_obj, real) spf"
    by (simp_all add: planned_call_def entry_error_def sample_advertised sample_clash_options
        call_params_def binds_twice_def sample_more_folds)
  have r: "fst (register_plugins sample_runtime empty_spf
        [(''no.such'', Some ''plugin_name=x'')]) = Inl TypeError"
    "fst (register_plugins sample_runtime empty_spf [(''adhoc.mod'', Some ''app=1'')]) =
      Inl TypeError"
    "calls (snd (register_plugins sample_runtime empty_spf [(''adhoc.mod'', Some ''app=1'')])) = []"
    by (simp_all add: register_plugins_loop register_loop_step register_entry_result
        register_entry_calls p calls_find_advertised empty_spf_def
        del: register_loop.simps(2))
  have m: "map_of (fst (find_advertised_plugins sample_runtime empty_spf))
        (casefold sample_runtime ''no.such'') = None"
    "map_of (fst (find_advertised_plugins sample_runtime empty_spf))
        (casefold sample_runtime ''adhoc.mod'') = None"
    by (simp_all add: sample_advertised sample_more_folds)
  from m r sample_imports show ?thesis by (intro conjI)
qed

end
